theory Spec2Isabelle
  imports Main "HOL-Library.Char_ord" "HOL-Library.List_Lexorder"
begin

section \<open>Data model\<close>

text \<open>
  The tables of the first migration and the TypeScript interfaces that read them.
  Identifiers are UUIDs in the program; they are opaque, so they are natural numbers here.
  The four Postgres enums are datatypes; the label a client sends or receives for an
  enum value is given by a function to strings.
\<close>

type_synonym uuid = nat

datatype user_role =
  Admin | FirstYearCoordinator | SecondYearCoordinator | ThirdYearCoordinator
  | FourthYearCoordinator

datatype academic_year = FirstYear | SecondYear | ThirdYear | FourthYear

datatype sport_type = Game | Athletic

datatype registration_status = Pending | Approved | Rejected

record student =
  st_id :: uuid
  st_name :: string
  st_roll_number :: string
  st_department :: string
  st_year :: academic_year
  st_created_at :: nat

record sport =
  sp_id :: uuid
  sp_name :: string
  sp_type :: sport_type
  sp_is_active :: bool

record registration =
  reg_id :: uuid
  student_id :: uuid
  sport_id :: uuid
  registered_by :: uuid
  status :: registration_status
  reg_created_at :: nat

text \<open>
  A settings row is a key and a JSON value. The program reads two fields of such a
  value, \<open>limit\<close> (a number) and \<open>enabled\<close> (a boolean); either may be missing.
\<close>

record setting_value =
  sv_limit :: "int option"
  sv_enabled :: "bool option"

type_synonym setting = "string \<times> setting_value"

record activity_log =
  log_user_id :: uuid
  log_action :: string
  log_registration :: "uuid option"
  log_students :: "uuid list"

section \<open>Storage\<close>

text \<open>
  Every call of the storage client is a request. A request may fail for reasons outside
  the program; \<open>faults\<close> lists, request by request, whether the next requests fail
  (an exhausted list means no further failure), and \<open>trace\<close> records the requests
  issued so far.
\<close>

datatype storage_op =
  SelectLimits | SelectStudents | SelectRegistrations | SelectAutoApprove
  | SelectSystemSettings | SelectRegistrationsJoined | SelectExistingRegistrations
  | InsertRegistrations | InsertActivityLog | UpdateRegistration | DeleteRegistration

datatype error =
  StorageError storage_op | UniqueViolation | ForeignKeyViolation | InvalidEnumLabel

record world =
  students :: "student list"
  sports :: "sport list"
  registrations :: "registration list"
  settings :: "setting list"
  activity_logs :: "activity_log list"
  next_id :: nat
  clock :: nat
  faults :: "bool list"
  trace :: "storage_op list"

definition request :: "storage_op \<Rightarrow> world \<Rightarrow> bool \<times> world" where
  "request op w =
     (case faults w of
        [] \<Rightarrow> (False, w\<lparr>trace := trace w @ [op]\<rparr>)
      | f # fs \<Rightarrow> (f, w\<lparr>faults := fs, trace := trace w @ [op]\<rparr>))"

section \<open>Registration limits (lib/registration-limits)\<close>

record RegistrationLimits =
  maxGameRegistrations :: int
  maxAthleticRegistrations :: int

record registration_summary =
  sport_name :: string
  sport_type :: sport_type

record StudentRegistrationInfo =
  info_id :: uuid
  info_name :: string
  info_roll_number :: string
  info_department :: string
  info_year :: academic_year
  currentCount :: int
  limit :: int
  info_registrations :: "registration_summary list"

text \<open>
  \<open>data.reduce((acc, setting) => { acc[setting.key] = setting.value; return acc }, {})\<close>:
  a later row with the same key overwrites an earlier one.
\<close>

definition settingsMap_of :: "setting list \<Rightarrow> (string \<rightharpoonup> setting_value)" where
  "settingsMap_of data = foldl (\<lambda>acc setting. acc(fst setting \<mapsto> snd setting)) Map.empty data"

text \<open>\<open>settingsMap.key?.limit || 0\<close>: a missing row, a missing field and 0 all give 0.\<close>

definition limit_or_zero :: "setting_value option \<Rightarrow> int" where
  "limit_or_zero v =
     (case v of
        None \<Rightarrow> 0
      | Some sv \<Rightarrow> (case sv_limit sv of None \<Rightarrow> 0 | Some n \<Rightarrow> (if n = 0 then 0 else n)))"

definition fetchRegistrationLimits :: "world \<Rightarrow> (error + RegistrationLimits) \<times> world" where
  "fetchRegistrationLimits w =
     (case request SelectLimits w of
        (failed, w') \<Rightarrow>
          if failed then (Inl (StorageError SelectLimits), w')
          else
          (let data = filter (\<lambda>s. fst s \<in> set [''max_game_registrations'',
                                                  ''max_athletic_registrations''])
                             (settings w');
               settingsMap = settingsMap_of data
           in (Inr \<lparr> maxGameRegistrations =
                       limit_or_zero (settingsMap ''max_game_registrations''),
                     maxAthleticRegistrations =
                       limit_or_zero (settingsMap ''max_athletic_registrations'') \<rparr>, w')))"

text \<open>
  The rows of \<open>registrations\<close> joined with their sport (\<open>sports!inner\<close>: a row
  without a sport is dropped), for the given students and with status pending or approved.
\<close>

record registration_with_sport =
  rs_student_id :: uuid
  rs_sport_name :: string
  rs_sport_type :: sport_type

definition join_sport :: "sport list \<Rightarrow> registration \<Rightarrow> registration_with_sport option" where
  "join_sport sps r =
     (case find (\<lambda>s. sp_id s = sport_id r) sps of
        None \<Rightarrow> None
      | Some s \<Rightarrow> Some \<lparr> rs_student_id = student_id r, rs_sport_name = sp_name s,
                          rs_sport_type = sp_type s \<rparr>)"

definition select_counted_registrations ::
  "uuid list \<Rightarrow> world \<Rightarrow> (error + registration_with_sport list) \<times> world" where
  "select_counted_registrations studentIds w =
     (case request SelectRegistrations w of
        (failed, w') \<Rightarrow>
          if failed then (Inl (StorageError SelectRegistrations), w')
          else
          (Inr (List.map_filter (join_sport (sports w'))
                  (filter (\<lambda>r. student_id r \<in> set studentIds
                                \<and> status r \<in> set [Pending, Approved])
                          (registrations w'))), w'))"

definition select_students_in ::
  "uuid list \<Rightarrow> world \<Rightarrow> (error + student list) \<times> world" where
  "select_students_in studentIds w =
     (case request SelectStudents w of
        (failed, w') \<Rightarrow>
          if failed then (Inl (StorageError SelectStudents), w')
          else (Inr (filter (\<lambda>s. st_id s \<in> set studentIds) (students w')), w'))"

definition student_info ::
  "registration_with_sport list \<Rightarrow> sport_type \<Rightarrow> int \<Rightarrow> student \<Rightarrow> StudentRegistrationInfo"
  where
  "student_info regs sportType lim st =
     (let studentRegistrations = filter (\<lambda>reg. rs_student_id reg = st_id st) regs;
          relevantRegistrations =
            filter (\<lambda>reg. rs_sport_type reg = sportType) studentRegistrations
      in \<lparr> info_id = st_id st, info_name = st_name st,
           info_roll_number = st_roll_number st, info_department = st_department st,
           info_year = st_year st,
           currentCount = int (length relevantRegistrations),
           limit = lim,
           info_registrations =
             map (\<lambda>reg. \<lparr> sport_name = rs_sport_name reg, sport_type = rs_sport_type reg \<rparr>)
                 relevantRegistrations \<rparr>)"

definition getStudentRegistrationInfo ::
  "uuid list \<Rightarrow> sport_type \<Rightarrow> world \<Rightarrow> (error + StudentRegistrationInfo list) \<times> world"
  where
  "getStudentRegistrationInfo studentIds sportType w =
     (if length studentIds = 0 then (Inr [], w)
      else
        (case fetchRegistrationLimits w of
           (Inl e, w1) \<Rightarrow> (Inl e, w1)
         | (Inr limits, w1) \<Rightarrow>
             (let lim = (if sportType = Game then maxGameRegistrations limits
                         else maxAthleticRegistrations limits)
              in (case select_students_in studentIds w1 of
                    (Inl e, w2) \<Rightarrow> (Inl e, w2)
                  | (Inr studs, w2) \<Rightarrow>
                      (case select_counted_registrations studentIds w2 of
                         (Inl e, w3) \<Rightarrow> (Inl e, w3)
                       | (Inr regs, w3) \<Rightarrow>
                           (Inr (map (student_info regs sportType lim) studs), w3))))))"

record limit_check =
  studentsAtLimit :: "StudentRegistrationInfo list"
  studentsOverLimit :: "StudentRegistrationInfo list"
  canRegister :: bool

definition checkRegistrationLimits ::
  "StudentRegistrationInfo list \<Rightarrow> sport_type \<Rightarrow> limit_check" where
  "checkRegistrationLimits studs sportType =
     (let atLimit = filter (\<lambda>s. currentCount s \<ge> limit s) studs;
          overLimit = filter (\<lambda>s. currentCount s > limit s) studs
      in \<lparr> studentsAtLimit = atLimit, studentsOverLimit = overLimit,
           canRegister = (length atLimit = 0) \<rparr>)"

definition getStudentsExceedingLimits ::
  "StudentRegistrationInfo list \<Rightarrow> sport_type \<Rightarrow> StudentRegistrationInfo list" where
  "getStudentsExceedingLimits studs sportType = filter (\<lambda>s. currentCount s \<ge> limit s) studs"


section \<open>Role scoping\<close>

text \<open>The labels of the enums \<open>user_role\<close> and \<open>academic_year\<close> (constants.ts, first migration).\<close>

fun role_string :: "user_role \<Rightarrow> string" where
  "role_string Admin = ''admin''"
| "role_string FirstYearCoordinator = ''first_year_coordinator''"
| "role_string SecondYearCoordinator = ''second_year_coordinator''"
| "role_string ThirdYearCoordinator = ''third_year_coordinator''"
| "role_string FourthYearCoordinator = ''fourth_year_coordinator''"

fun year_label :: "academic_year \<Rightarrow> string" where
  "year_label FirstYear = ''first''"
| "year_label SecondYear = ''second''"
| "year_label ThirdYear = ''third''"
| "year_label FourthYear = ''fourth''"

text \<open>
  A string compared with an enum column is first read as a label of the enum; a string
  that is no label makes the query fail.
\<close>

definition parse_academic_year :: "string \<Rightarrow> academic_year option" where
  "parse_academic_year s =
     (if s = ''first'' then Some FirstYear
      else if s = ''second'' then Some SecondYear
      else if s = ''third'' then Some ThirdYear
      else if s = ''fourth'' then Some FourthYear
      else None)"

text \<open>
  The policy "Coordinators can view students of their year" of the first migration: the
  pairs of role and year it lists.
\<close>

fun policy_year :: "user_role \<Rightarrow> academic_year option" where
  "policy_year Admin = None"
| "policy_year FirstYearCoordinator = Some FirstYear"
| "policy_year SecondYearCoordinator = Some SecondYear"
| "policy_year ThirdYearCoordinator = Some ThirdYear"
| "policy_year FourthYearCoordinator = Some FourthYear"

text \<open>
  \<open>s.replace(pattern, replacement)\<close> with a string pattern replaces the first
  occurrence of the pattern only.
\<close>

fun js_replace :: "string \<Rightarrow> string \<Rightarrow> string \<Rightarrow> string" where
  "js_replace [] pat rep = (if pat = [] then rep else [])"
| "js_replace (c # cs) pat rep =
     (if take (length pat) (c # cs) = pat then rep @ drop (length pat) (c # cs)
      else c # js_replace cs pat rep)"

text \<open>\<open>profile.role.replace('_coordinator', '').replace('_year', '')\<close>\<close>

definition coordinator_year :: "string \<Rightarrow> string" where
  "coordinator_year r = js_replace (js_replace r ''_coordinator'' []) ''_year'' []"

record profile =
  profile_id :: uuid
  role :: user_role

definition select_students_of_year :: "string \<Rightarrow> world \<Rightarrow> (error + student list) \<times> world" where
  "select_students_of_year yr w =
     (case request SelectStudents w of
        (failed, w') \<Rightarrow>
          if failed then (Inl (StorageError SelectStudents), w')
          else (case parse_academic_year yr of
                  None \<Rightarrow> (Inl InvalidEnumLabel, w')
                | Some y \<Rightarrow> (Inr (filter (\<lambda>s. st_year s = y) (students w')), w')))"

definition select_all_students :: "world \<Rightarrow> (error + student list) \<times> world" where
  "select_all_students w =
     (case request SelectStudents w of
        (failed, w') \<Rightarrow>
          if failed then (Inl (StorageError SelectStudents), w')
          else (Inr (students w'), w'))"

datatype toast =
  NoStudentsSelected | LimitCheckFailed | RegistrationSucceeded nat bool | RegistrationFailed
  | FetchFailed | StatusUpdated registration_status | StatusUpdateFailed
  | RegistrationRemoved | RemoveFailed

text \<open>
  The page Students: \<open>fetchStudents\<close> lists all students for the admin and the students
  of the coordinator's year otherwise, newest first; a failed read leaves the list as it was.
\<close>

definition Students_fetchStudents ::
  "profile \<Rightarrow> student list \<Rightarrow> world \<Rightarrow> (student list \<times> toast list) \<times> world" where
  "Students_fetchStudents p shown w =
     (case (if role p \<noteq> Admin
            then select_students_of_year (coordinator_year (role_string (role p))) w
            else select_all_students w) of
        (Inl e, w') \<Rightarrow> ((shown, [FetchFailed]), w')
      | (Inr data, w') \<Rightarrow> ((rev (sort_key st_created_at data), []), w'))"

section \<open>The registration form (StudentRegistrationForm)\<close>

record existing_registration =
  er_student_id :: uuid
  er_sport_id :: uuid
  er_status :: registration_status

record type_counts =
  games :: int
  athletics :: int

record form_state =
  form_students :: "student list"
  selectedStudents :: "uuid list"
  existingRegistrations :: "existing_registration list"
  registrationLimits :: RegistrationLimits
  studentRegistrationCounts :: "uuid \<rightharpoonup> type_counts"
  showWarningDialog :: bool
  studentsExceedingLimits :: "StudentRegistrationInfo list"
  registering :: bool
  toasts :: "toast list"

text \<open>
  \<open>fetchStudents\<close> of the form: nothing for the admin; for a coordinator the students
  of the year derived from the role string, ordered by name. An error is thrown to the caller.
\<close>

definition fetchStudents ::
  "profile \<Rightarrow> form_state \<Rightarrow> world \<Rightarrow> (error + form_state) \<times> world" where
  "fetchStudents p fs w =
     (if role p = Admin then (Inr fs, w)
      else
        (let yr = coordinator_year (role_string (role p))
         in (case select_students_of_year yr w of
               (Inl e, w') \<Rightarrow> (Inl e, w')
             | (Inr data, w') \<Rightarrow> (Inr (fs\<lparr>form_students := sort_key st_name data\<rparr>), w'))))"

definition fetchExistingRegistrations ::
  "sport \<Rightarrow> form_state \<Rightarrow> world \<Rightarrow> (error + form_state) \<times> world" where
  "fetchExistingRegistrations sp fs w =
     (case request SelectExistingRegistrations w of
        (failed, w') \<Rightarrow>
          if failed then (Inl (StorageError SelectExistingRegistrations), w')
          else (Inr (fs\<lparr>existingRegistrations :=
                        map (\<lambda>r. \<lparr> er_student_id = student_id r, er_sport_id = sport_id r,
                                   er_status = status r \<rparr>)
                            (filter (\<lambda>r. sport_id r = sp_id sp) (registrations w'))\<rparr>), w'))"

text \<open>
  The loop \<open>data.forEach(reg => { if (counts[reg.student_id]) { ... ++ } })\<close> over a
  dictionary that holds a pair of zeros for every listed student.
\<close>

definition bump_counts ::
  "(uuid \<rightharpoonup> type_counts) \<Rightarrow> registration_with_sport \<Rightarrow> (uuid \<rightharpoonup> type_counts)" where
  "bump_counts counts reg =
     (case counts (rs_student_id reg) of
        None \<Rightarrow> counts
      | Some c \<Rightarrow>
          (if rs_sport_type reg = Game
           then counts(rs_student_id reg \<mapsto> c\<lparr>games := games c + 1\<rparr>)
           else counts(rs_student_id reg \<mapsto> c\<lparr>athletics := athletics c + 1\<rparr>)))"

definition count_registrations ::
  "uuid list \<Rightarrow> registration_with_sport list \<Rightarrow> (uuid \<rightharpoonup> type_counts)" where
  "count_registrations ids data =
     foldl bump_counts
       (foldl (\<lambda>counts sid. counts(sid \<mapsto> \<lparr> games = 0, athletics = 0 \<rparr>)) Map.empty ids)
       data"


definition handleStudentToggle :: "uuid \<Rightarrow> form_state \<Rightarrow> form_state" where
  "handleStudentToggle studentId fs =
     fs\<lparr>selectedStudents :=
          (if studentId \<in> set (selectedStudents fs)
           then filter (\<lambda>i. i \<noteq> studentId) (selectedStudents fs)
           else selectedStudents fs @ [studentId])\<rparr>"

definition isStudentAlreadyRegistered :: "form_state \<Rightarrow> uuid \<Rightarrow> bool" where
  "isStudentAlreadyRegistered fs studentId =
     (\<exists>reg \<in> set (existingRegistrations fs). er_student_id reg = studentId)"

definition canStudentRegister :: "sport \<Rightarrow> form_state \<Rightarrow> uuid \<Rightarrow> bool" where
  "canStudentRegister sp fs studentId =
     (if isStudentAlreadyRegistered fs studentId then False
      else
        (case studentRegistrationCounts fs studentId of
           None \<Rightarrow> True
         | Some counts \<Rightarrow>
             (let lim = (if sp_type sp = Game
                         then maxGameRegistrations (registrationLimits fs)
                         else maxAthleticRegistrations (registrationLimits fs));
                  cur = (if sp_type sp = Game then games counts else athletics counts)
              in cur < lim)))"

subsection \<open>Writing the ledger\<close>

text \<open>
  A batch insert into \<open>registrations\<close>. The table has \<open>UNIQUE(student_id, sport_id)\<close>
  and both columns reference their tables; the statement is atomic, so a violation by
  any row rejects the whole batch. The unique index is checked as each row is written,
  the references at the end of the statement. The database gives every new row its
  identity and creation time.
\<close>

record registration_insert =
  ins_student_id :: uuid
  ins_sport_id :: uuid
  ins_registered_by :: uuid
  ins_status :: registration_status

fun stamp :: "nat \<Rightarrow> nat \<Rightarrow> registration_insert list \<Rightarrow> registration list" where
  "stamp n c [] = []"
| "stamp n c (x # xs) =
     \<lparr> reg_id = n, student_id = ins_student_id x, sport_id = ins_sport_id x,
       registered_by = ins_registered_by x, status = ins_status x, reg_created_at = c \<rparr>
     # stamp (Suc n) c xs"

definition insert_registrations ::
  "registration_insert list \<Rightarrow> world \<Rightarrow> (error + unit) \<times> world" where
  "insert_registrations rows w =
     (case request InsertRegistrations w of
        (failed, w') \<Rightarrow>
          if failed then (Inl (StorageError InsertRegistrations), w')
          else
            (let old_keys = map (\<lambda>r. (student_id r, sport_id r)) (registrations w');
                 new_keys = map (\<lambda>x. (ins_student_id x, ins_sport_id x)) rows
             in if \<not> distinct new_keys \<or> (\<exists>k \<in> set new_keys. k \<in> set old_keys)
                then (Inl UniqueViolation, w')
                else if \<exists>x \<in> set rows. ins_student_id x \<notin> st_id ` set (students w')
                                        \<or> ins_sport_id x \<notin> sp_id ` set (sports w')
                then (Inl ForeignKeyViolation, w')
                else (Inr (),
                      w'\<lparr>registrations :=
                           registrations w' @ stamp (next_id w') (clock w') rows,
                         next_id := next_id w' + length rows,
                         clock := Suc (clock w')\<rparr>)))"

text \<open>
  \<open>.eq('key', 'auto_approve_registrations').single()\<close>: the value of the one row with
  that key; no row, several rows or a failed request give no data, and the program does
  not look at the error.
\<close>

definition select_auto_approve :: "world \<Rightarrow> setting_value option \<times> world" where
  "select_auto_approve w =
     (case request SelectAutoApprove w of
        (failed, w') \<Rightarrow>
          if failed then (None, w')
          else (case filter (\<lambda>s. fst s = ''auto_approve_registrations'') (settings w') of
                  [row] \<Rightarrow> (Some (snd row), w')
                | _ \<Rightarrow> (None, w')))"

text \<open>The result of an insert into \<open>activity_logs\<close> is not inspected by its callers.\<close>

definition insert_activity_log :: "activity_log \<Rightarrow> world \<Rightarrow> world" where
  "insert_activity_log entry w =
     (case request InsertActivityLog w of
        (failed, w') \<Rightarrow>
          if failed then w' else w'\<lparr>activity_logs := activity_logs w' @ [entry]\<rparr>)"

definition performRegistration ::
  "profile \<Rightarrow> sport \<Rightarrow> form_state \<Rightarrow> world \<Rightarrow> form_state \<times> world" where
  "performRegistration p sp fs w =
     (case select_auto_approve w of
        (autoApproveSetting, w1) \<Rightarrow>
          (let autoApprove =
                 (case autoApproveSetting of
                    None \<Rightarrow> False
                  | Some v \<Rightarrow> (case sv_enabled v of None \<Rightarrow> False | Some b \<Rightarrow> b));
               initialStatus = (if autoApprove then Approved else Pending);
               rows = map (\<lambda>studentId.
                             \<lparr> ins_student_id = studentId, ins_sport_id = sp_id sp,
                               ins_registered_by = profile_id p, ins_status = initialStatus \<rparr>)
                          (selectedStudents fs)
           in (case insert_registrations rows w1 of
                 (Inl e, w2) \<Rightarrow>
                   (fs\<lparr>toasts := toasts fs @ [RegistrationFailed], registering := False\<rparr>, w2)
               | (Inr u, w2) \<Rightarrow>
                   (let w3 = insert_activity_log
                               \<lparr> log_user_id = profile_id p,
                                 log_action = ''students_registered'',
                                 log_registration = None,
                                 log_students = selectedStudents fs \<rparr> w2
                    in (fs\<lparr>toasts := toasts fs
                               @ [RegistrationSucceeded (length (selectedStudents fs)) autoApprove],
                            registering := False\<rparr>, w3)))))"

definition handleSubmit ::
  "profile \<Rightarrow> sport \<Rightarrow> form_state \<Rightarrow> world \<Rightarrow> form_state \<times> world" where
  "handleSubmit p sp fs w =
     (if length (selectedStudents fs) = 0
      then (fs\<lparr>toasts := toasts fs @ [NoStudentsSelected]\<rparr>, w)
      else
        (case getStudentRegistrationInfo (selectedStudents fs) (sp_type sp) w of
           (Inl e, w1) \<Rightarrow> (fs\<lparr>toasts := toasts fs @ [LimitCheckFailed]\<rparr>, w1)
         | (Inr studentInfo, w1) \<Rightarrow>
             (let studentsExceeding = filter (\<lambda>s. currentCount s \<ge> limit s) studentInfo
              in if length studentsExceeding > 0
                 then (fs\<lparr>studentsExceedingLimits := studentsExceeding,
                          showWarningDialog := True\<rparr>, w1)
                 else performRegistration p sp fs w1)))"

definition handleWarningConfirm ::
  "profile \<Rightarrow> sport \<Rightarrow> form_state \<Rightarrow> world \<Rightarrow> form_state \<times> world" where
  "handleWarningConfirm p sp fs w = performRegistration p sp (fs\<lparr>showWarningDialog := False\<rparr>) w"

definition handleWarningCancel :: "form_state \<Rightarrow> form_state" where
  "handleWarningCancel fs = fs\<lparr>showWarningDialog := False, studentsExceedingLimits := []\<rparr>"

section \<open>The page Registrations\<close>

record registration_view =
  rv_id :: uuid
  rv_status :: registration_status
  rv_created_at :: nat
  rv_student :: student
  rv_sport :: sport

record page_state =
  page_registrations :: "registration_view list"
  page_limits :: RegistrationLimits
  page_counts :: "uuid \<rightharpoonup> type_counts"
  page_toasts :: "toast list"

text \<open>A registration with its student and its sport (\<open>students!inner\<close>, \<open>sports!inner\<close>).\<close>

definition join_view :: "world \<Rightarrow> registration \<Rightarrow> registration_view option" where
  "join_view w r =
     (case find (\<lambda>s. st_id s = student_id r) (students w) of
        None \<Rightarrow> None
      | Some st \<Rightarrow>
          (case find (\<lambda>s. sp_id s = sport_id r) (sports w) of
             None \<Rightarrow> None
           | Some sp \<Rightarrow> Some \<lparr> rv_id = reg_id r, rv_status = status r,
                                 rv_created_at = reg_created_at r, rv_student = st,
                                 rv_sport = sp \<rparr>))"

definition select_registration_views ::
  "string option \<Rightarrow> world \<Rightarrow> (error + registration_view list) \<times> world" where
  "select_registration_views year_filter w =
     (case request SelectRegistrationsJoined w of
        (failed, w') \<Rightarrow>
          if failed then (Inl (StorageError SelectRegistrationsJoined), w')
          else
            (let rows = List.map_filter (join_view w') (registrations w')
             in (case year_filter of
                   None \<Rightarrow> (Inr (rev (sort_key rv_created_at rows)), w')
                 | Some yr \<Rightarrow>
                     (case parse_academic_year yr of
                        None \<Rightarrow> (Inl InvalidEnumLabel, w')
                      | Some y \<Rightarrow>
                          (Inr (rev (sort_key rv_created_at
                                  (filter (\<lambda>v. st_year (rv_student v) = y) rows))), w')))))"

definition fetchRegistrationLimitsData :: "page_state \<Rightarrow> world \<Rightarrow> page_state \<times> world" where
  "fetchRegistrationLimitsData page w =
     (case fetchRegistrationLimits w of
        (Inl e, w') \<Rightarrow> (page, w')
      | (Inr limits, w') \<Rightarrow> (page\<lparr>page_limits := limits\<rparr>, w'))"

text \<open>\<open>[...new Set(xs)]\<close> keeps the first occurrence of every element.\<close>

definition unique_ids :: "uuid list \<Rightarrow> uuid list" where
  "unique_ids xs = rev (remdups (rev xs))"

definition Registrations_fetchStudentRegistrationCounts ::
  "registration_view list \<Rightarrow> page_state \<Rightarrow> world \<Rightarrow> page_state \<times> world" where
  "Registrations_fetchStudentRegistrationCounts regs page w =
     (let studentIds = unique_ids (map (\<lambda>r. st_id (rv_student r)) regs)
      in (case select_counted_registrations studentIds w of
            (Inl e, w') \<Rightarrow> (page, w')
          | (Inr data, w') \<Rightarrow>
              (page\<lparr>page_counts := count_registrations studentIds data\<rparr>, w')))"

text \<open>
  \<open>fetchRegistrations\<close>: a failed read leaves the list on the page as it was. For the
  admin the limits and the counts are read next (the program starts both reads together;
  they are taken in the order written).
\<close>

definition fetchRegistrations :: "profile \<Rightarrow> page_state \<Rightarrow> world \<Rightarrow> page_state \<times> world" where
  "fetchRegistrations p page w =
     (case select_registration_views
             (if role p \<noteq> Admin then Some (coordinator_year (role_string (role p))) else None) w of
        (Inl e, w1) \<Rightarrow> (page\<lparr>page_toasts := page_toasts page @ [FetchFailed]\<rparr>, w1)
      | (Inr data, w1) \<Rightarrow>
          (let page1 = page\<lparr>page_registrations := data\<rparr>
           in if role p = Admin
              then (case fetchRegistrationLimitsData page1 w1 of
                      (page2, w2) \<Rightarrow> Registrations_fetchStudentRegistrationCounts data page2 w2)
              else (page1, w1)))"

text \<open>The parameter \<open>newStatus: 'approved' | 'rejected'\<close>.\<close>

datatype status_update = SetApproved | SetRejected

fun new_status :: "status_update \<Rightarrow> registration_status" where
  "new_status SetApproved = Approved"
| "new_status SetRejected = Rejected"

definition update_status ::
  "uuid \<Rightarrow> registration_status \<Rightarrow> world \<Rightarrow> (error + unit) \<times> world" where
  "update_status registrationId s w =
     (case request UpdateRegistration w of
        (failed, w') \<Rightarrow>
          if failed then (Inl (StorageError UpdateRegistration), w')
          else (Inr (),
                w'\<lparr>registrations :=
                     map (\<lambda>r. if reg_id r = registrationId then r\<lparr>status := s\<rparr> else r)
                         (registrations w')\<rparr>))"

definition updateRegistrationStatus ::
  "profile \<Rightarrow> uuid \<Rightarrow> status_update \<Rightarrow> page_state \<Rightarrow> world \<Rightarrow> page_state \<times> world" where
  "updateRegistrationStatus p registrationId newStatus page w =
     (case update_status registrationId (new_status newStatus) w of
        (Inl e, w1) \<Rightarrow> (page\<lparr>page_toasts := page_toasts page @ [StatusUpdateFailed]\<rparr>, w1)
      | (Inr u, w1) \<Rightarrow>
          (let w2 = insert_activity_log
                      \<lparr> log_user_id = profile_id p,
                        log_action = ''registration_status_updated'',
                        log_registration = Some registrationId,
                        log_students = [] \<rparr> w1
           in fetchRegistrations p
                (page\<lparr>page_toasts := page_toasts page @ [StatusUpdated (new_status newStatus)]\<rparr>)
                w2))"

text \<open>
  The buttons Approve and Reject are rendered for a registration of the list on the page
  only when the profile is the admin's and the listed status is pending; a click calls
  \<open>updateRegistrationStatus\<close>.
\<close>

definition statusButtonsShown :: "profile \<Rightarrow> page_state \<Rightarrow> uuid \<Rightarrow> bool" where
  "statusButtonsShown p page registrationId =
     (\<exists>registration \<in> set (page_registrations page).
        rv_id registration = registrationId
        \<and> role p = Admin \<and> rv_status registration = Pending)"

definition clickStatusButton ::
  "profile \<Rightarrow> uuid \<Rightarrow> status_update \<Rightarrow> page_state \<Rightarrow> world \<Rightarrow> page_state \<times> world" where
  "clickStatusButton p registrationId newStatus page w =
     (if statusButtonsShown p page registrationId
      then updateRegistrationStatus p registrationId newStatus page w
      else (page, w))"

definition delete_registration :: "uuid \<Rightarrow> world \<Rightarrow> (error + unit) \<times> world" where
  "delete_registration registrationId w =
     (case request DeleteRegistration w of
        (failed, w') \<Rightarrow>
          if failed then (Inl (StorageError DeleteRegistration), w')
          else (Inr (),
                w'\<lparr>registrations :=
                     filter (\<lambda>r. reg_id r \<noteq> registrationId) (registrations w')\<rparr>))"

text \<open>\<open>deleteRegistration\<close> asks for confirmation first; \<open>confirmed\<close> is the answer.\<close>

definition deleteRegistration ::
  "profile \<Rightarrow> bool \<Rightarrow> uuid \<Rightarrow> page_state \<Rightarrow> world \<Rightarrow> page_state \<times> world" where
  "deleteRegistration p confirmed registrationId page w =
     (if \<not> confirmed then (page, w)
      else
        (case delete_registration registrationId w of
           (Inl e, w1) \<Rightarrow> (page\<lparr>page_toasts := page_toasts page @ [RemoveFailed]\<rparr>, w1)
         | (Inr u, w1) \<Rightarrow>
             fetchRegistrations p
               (page\<lparr>page_toasts := page_toasts page @ [RegistrationRemoved]\<rparr>) w1))"

section \<open>System settings\<close>

record SystemSettings =
  signUpEnabled :: bool

text \<open>The body of the \<open>try\<close> block of \<open>fetchSystemSettings\<close>, then the function with its handler.\<close>

definition fetchSystemSettings_try :: "world \<Rightarrow> (error + SystemSettings) \<times> world" where
  "fetchSystemSettings_try w =
     (case request SelectSystemSettings w of
        (failed, w') \<Rightarrow>
          if failed then (Inl (StorageError SelectSystemSettings), w')
          else
            (let data = filter (\<lambda>s. fst s \<in> set [''sign_up_enabled'']) (settings w');
                 settingsMap = settingsMap_of data
             in (Inr \<lparr> signUpEnabled =
                         ((case settingsMap ''sign_up_enabled'' of
                             None \<Rightarrow> None
                           | Some v \<Rightarrow> sv_enabled v) \<noteq> Some False) \<rparr>, w')))"

definition fetchSystemSettings :: "world \<Rightarrow> (error + SystemSettings) \<times> world" where
  "fetchSystemSettings w =
     (case fetchSystemSettings_try w of
        (Inl e, w') \<Rightarrow> (Inr \<lparr> signUpEnabled = True \<rparr>, w')
      | (Inr s, w') \<Rightarrow> (Inr s, w'))"

section \<open>Reachable states of the ledger\<close>

text \<open>
  The ledger starts empty. It is written by the form (submit, confirm) and by the page
  Registrations (status update, removal); everything else leaves it as it is.
\<close>

inductive reachable :: "world \<Rightarrow> bool" where
  empty_ledger: "registrations w = [] \<Longrightarrow> reachable w"
| submitted: "reachable w \<Longrightarrow> handleSubmit p sp fs w = (fs', w') \<Longrightarrow> reachable w'"
| confirmed: "reachable w \<Longrightarrow> handleWarningConfirm p sp fs w = (fs', w') \<Longrightarrow> reachable w'"
| status_updated:
    "reachable w \<Longrightarrow> updateRegistrationStatus p rid ns page w = (page', w') \<Longrightarrow> reachable w'"
| removed: "reachable w \<Longrightarrow> deleteRegistration p c rid page w = (page', w') \<Longrightarrow> reachable w'"
| elsewhere: "reachable w \<Longrightarrow> registrations w' = registrations w \<Longrightarrow> reachable w'"

section \<open>Notions used to state the properties\<close>

text \<open>The settings key of a category, and the limit configured for it, if any.\<close>

definition limit_key :: "sport_type \<Rightarrow> string" where
  "limit_key t = (if t = Game then ''max_game_registrations'' else ''max_athletic_registrations'')"

definition configured_limit :: "world \<Rightarrow> sport_type \<Rightarrow> int option" where
  "configured_limit w t =
     (case map_of (rev (settings w)) (limit_key t) of None \<Rightarrow> None | Some sv \<Rightarrow> sv_limit sv)"

definition resolved_limit :: "world \<Rightarrow> sport_type \<Rightarrow> int" where
  "resolved_limit w t = limit_or_zero (map_of (rev (settings w)) (limit_key t))"

text \<open>The category of a registration is the type of its sport.\<close>

definition category_of :: "world \<Rightarrow> registration \<Rightarrow> sport_type option" where
  "category_of w r = map_option sp_type (find (\<lambda>s. sp_id s = sport_id r) (sports w))"

text \<open>The number of a student's pending or approved registrations in a category.\<close>

definition quota_count :: "world \<Rightarrow> uuid \<Rightarrow> sport_type \<Rightarrow> nat" where
  "quota_count w sid t =
     length (filter (\<lambda>r. student_id r = sid \<and> (status r = Pending \<or> status r = Approved)
                          \<and> category_of w r = Some t) (registrations w))"

definition counted_rows :: "uuid list \<Rightarrow> world \<Rightarrow> registration_with_sport list" where
  "counted_rows ids w =
     List.map_filter (join_sport (sports w))
       (filter (\<lambda>r. student_id r \<in> set ids \<and> status r \<in> set [Pending, Approved])
          (registrations w))"

text \<open>Two states with the same tables; they may differ in the requests made and to come.\<close>

definition same_tables :: "world \<Rightarrow> world \<Rightarrow> bool" where
  "same_tables w w' \<longleftrightarrow>
     students w' = students w \<and> sports w' = sports w \<and> registrations w' = registrations w
     \<and> settings w' = settings w \<and> activity_logs w' = activity_logs w \<and> next_id w' = next_id w
     \<and> clock w' = clock w"

definition ledger_keys :: "world \<Rightarrow> (uuid \<times> uuid) list" where
  "ledger_keys w = map (\<lambda>r. (student_id r, sport_id r)) (registrations w)"

text \<open>Whether the storage layer fails the next request.\<close>

definition next_request_fails :: "world \<Rightarrow> bool" where
  "next_request_fails w = (case faults w of [] \<Rightarrow> False | f # fs \<Rightarrow> f)"

text \<open>The auto-approve setting is enabled when its row holds \<open>enabled = true\<close>.\<close>

definition auto_approve_enabled :: "world \<Rightarrow> bool" where
  "auto_approve_enabled w =
     (\<exists>s \<in> set (settings w). fst s = ''auto_approve_registrations''
                              \<and> sv_enabled (snd s) = Some True)"

text \<open>The column \<open>key\<close> of \<open>settings\<close> is declared \<open>UNIQUE\<close>.\<close>

definition unique_setting_keys :: "world \<Rightarrow> bool" where
  "unique_setting_keys w = distinct (map fst (settings w))"

text \<open>The batch of rows violates neither the unique index nor a reference.\<close>

definition insert_accepted :: "registration_insert list \<Rightarrow> world \<Rightarrow> bool" where
  "insert_accepted rows w \<longleftrightarrow>
     distinct (map (\<lambda>x. (ins_student_id x, ins_sport_id x)) rows)
     \<and> (\<forall>x \<in> set rows. (ins_student_id x, ins_sport_id x) \<notin> set (ledger_keys w)
                         \<and> ins_student_id x \<in> st_id ` set (students w)
                         \<and> ins_sport_id x \<in> sp_id ` set (sports w))"

text \<open>The rows \<open>performRegistration\<close> builds from the selection, for a given initial status.\<close>

definition batch_rows ::
  "profile \<Rightarrow> sport \<Rightarrow> registration_status \<Rightarrow> uuid list \<Rightarrow> registration_insert list" where
  "batch_rows p sp s ids =
     map (\<lambda>studentId. \<lparr> ins_student_id = studentId, ins_sport_id = sp_id sp,
                         ins_registered_by = profile_id p, ins_status = s \<rparr>) ids"


text \<open>
  The list on the page shows the stored status of every registration it lists.
\<close>

definition list_in_sync :: "page_state \<Rightarrow> world \<Rightarrow> bool" where
  "list_in_sync page w \<longleftrightarrow>
     (\<forall>rv \<in> set (page_registrations page). \<forall>r \<in> set (registrations w).
        reg_id r = rv_id rv \<longrightarrow> status r = rv_status rv)"

section \<open>Example data\<close>

definition alice :: student where
  "alice = \<lparr> st_id = 1, st_name = ''Alice'', st_roll_number = ''R001'',
             st_department = ''CSE'', st_year = FirstYear, st_created_at = 1 \<rparr>"

definition bob :: student where
  "bob = \<lparr> st_id = 2, st_name = ''Bob'', st_roll_number = ''R002'',
           st_department = ''ECE'', st_year = SecondYear, st_created_at = 2 \<rparr>"

definition carol :: student where
  "carol = \<lparr> st_id = 3, st_name = ''Carol'', st_roll_number = ''R003'',
             st_department = ''MECH'', st_year = FirstYear, st_created_at = 3 \<rparr>"

definition chess :: sport where
  "chess = \<lparr> sp_id = 10, sp_name = ''Chess'', sp_type = Game, sp_is_active = True \<rparr>"

definition carrom :: sport where
  "carrom = \<lparr> sp_id = 11, sp_name = ''Carrom'', sp_type = Game, sp_is_active = True \<rparr>"

definition sprint :: sport where
  "sprint = \<lparr> sp_id = 12, sp_name = ''Sprint'', sp_type = Athletic, sp_is_active = True \<rparr>"

definition kabaddi :: sport where
  "kabaddi = \<lparr> sp_id = 13, sp_name = ''Kabaddi'', sp_type = Game, sp_is_active = True \<rparr>"

text \<open>A state with three students and four sports, no registration and no settings row.\<close>

definition bare_world :: world where
  "bare_world = \<lparr> students = [alice, bob, carol], sports = [chess, carrom, sprint, kabaddi],
                  registrations = [], settings = [], activity_logs = [],
                  next_id = 100, clock = 5, faults = [], trace = [] \<rparr>"

text \<open>The settings rows of the first migration: both limits are 2.\<close>

definition default_settings :: "setting list" where
  "default_settings =
     [(''max_game_registrations'', \<lparr> sv_limit = Some 2, sv_enabled = None \<rparr>),
      (''max_athletic_registrations'', \<lparr> sv_limit = Some 2, sv_enabled = None \<rparr>)]"

definition mk_registration ::
  "uuid \<Rightarrow> uuid \<Rightarrow> uuid \<Rightarrow> registration_status \<Rightarrow> registration" where
  "mk_registration rid sid spid s =
     \<lparr> reg_id = rid, student_id = sid, sport_id = spid, registered_by = 7, status = s,
       reg_created_at = 3 \<rparr>"

text \<open>
  Alice holds a pending and an approved game registration and a rejected athletic one;
  Bob holds one approved game registration.
\<close>

definition busy_world :: world where
  "busy_world = bare_world
     \<lparr> registrations := [mk_registration 50 1 10 Pending, mk_registration 51 1 11 Approved,
                         mk_registration 52 1 12 Rejected, mk_registration 53 2 10 Approved],
       settings := default_settings \<rparr>"

definition info_of :: "student \<Rightarrow> int \<Rightarrow> int \<Rightarrow> registration_summary list \<Rightarrow> StudentRegistrationInfo"
  where
  "info_of st c l rs =
     \<lparr> info_id = st_id st, info_name = st_name st, info_roll_number = st_roll_number st,
       info_department = st_department st, info_year = st_year st, currentCount = c,
       limit = l, info_registrations = rs \<rparr>"

text \<open>The state \<open>busy_world\<close> with the game limit set to 0 and no athletic limit.\<close>

definition zero_limit_world :: world where
  "zero_limit_world = busy_world
     \<lparr> settings := [(''max_game_registrations'', \<lparr> sv_limit = Some 0, sv_enabled = None \<rparr>)] \<rparr>"

text \<open>A coordinator of the first year, the admin, and a form with Alice and Carol selected.\<close>

definition coordinator1 :: profile where
  "coordinator1 = \<lparr> profile_id = 7, role = FirstYearCoordinator \<rparr>"

definition admin0 :: profile where
  "admin0 = \<lparr> profile_id = 9, role = Admin \<rparr>"

definition form0 :: form_state where
  "form0 = \<lparr> form_students = [alice, carol], selectedStudents = [1, 3],
             existingRegistrations = [],
             registrationLimits = \<lparr> maxGameRegistrations = 0, maxAthleticRegistrations = 0 \<rparr>,
             studentRegistrationCounts = Map.empty, showWarningDialog = False,
             studentsExceedingLimits = [], registering = False, toasts = [] \<rparr>"

text \<open>The default settings with auto-approve switched on.\<close>

definition auto_world :: world where
  "auto_world = bare_world
     \<lparr> settings := default_settings
          @ [(''auto_approve_registrations'', \<lparr> sv_limit = None, sv_enabled = Some True \<rparr>)] \<rparr>"

text \<open>A state in which sign-up is switched off.\<close>

definition signup_closed_world :: world where
  "signup_closed_world = bare_world
     \<lparr> settings := [(''sign_up_enabled'', \<lparr> sv_limit = None, sv_enabled = Some False \<rparr>)] \<rparr>"

text \<open>The state after the coordinator has registered Alice and Carol for chess.\<close>

definition registered_world :: world where
  "registered_world = snd (handleWarningConfirm coordinator1 chess form0 auto_world)"

text \<open>
  Two coordinators of the first year work at the same time. At the start Alice holds one
  approved game registration (carrom) and the limits are 2. The first coordinator's form
  for chess was loaded in this state, with Alice and Carol selected (\<open>form0\<close>). Then
  the second coordinator registers Alice for chess, which gives \<open>stale_world\<close>.
\<close>

definition coordinator1b :: profile where
  "coordinator1b = \<lparr> profile_id = 8, role = FirstYearCoordinator \<rparr>"

definition start_world :: world where
  "start_world = bare_world
     \<lparr> registrations := [mk_registration 51 1 11 Approved], settings := default_settings \<rparr>"

definition form_alice :: form_state where
  "form_alice = form0 \<lparr> selectedStudents := [1] \<rparr>"

definition stale_world :: world where
  "stale_world = snd (handleSubmit coordinator1b chess form_alice start_world)"

text \<open>
  Two admins look at the page Registrations while Alice's registration for chess is
  pending. Both load the page; the second admin approves the registration; the first
  admin's page still lists it as pending.
\<close>

definition admin_b :: profile where
  "admin_b = \<lparr> profile_id = 10, role = Admin \<rparr>"

definition pending_world :: world where
  "pending_world = bare_world
     \<lparr> registrations := [mk_registration 50 1 10 Pending], settings := default_settings \<rparr>"

definition blank_page :: page_state where
  "blank_page = \<lparr> page_registrations = [],
                  page_limits = \<lparr> maxGameRegistrations = 0, maxAthleticRegistrations = 0 \<rparr>,
                  page_counts = Map.empty, page_toasts = [] \<rparr>"

definition first_admin_loaded :: "page_state \<times> world" where
  "first_admin_loaded = fetchRegistrations admin0 blank_page pending_world"

definition second_admin_loaded :: "page_state \<times> world" where
  "second_admin_loaded = fetchRegistrations admin_b blank_page (snd first_admin_loaded)"

definition second_admin_approved :: "page_state \<times> world" where
  "second_admin_approved =
     clickStatusButton admin_b 50 SetApproved (fst second_admin_loaded) (snd second_admin_loaded)"

definition first_admin_rejected :: "page_state \<times> world" where
  "first_admin_rejected =
     clickStatusButton admin0 50 SetRejected (fst first_admin_loaded) (snd second_admin_approved)"

text \<open>
  One admin alone: the page is loaded, the registration is approved, and the read that
  refreshes the list afterwards (the sixth request) fails.
\<close>

definition lone_admin_loaded :: "page_state \<times> world" where
  "lone_admin_loaded =
     fetchRegistrations admin0 blank_page
       (pending_world\<lparr>faults := [False, False, False, False, False, True]\<rparr>)"

definition lone_admin_approved :: "page_state \<times> world" where
  "lone_admin_approved =
     clickStatusButton admin0 50 SetApproved (fst lone_admin_loaded) (snd lone_admin_loaded)"

definition lone_admin_rejected :: "page_state \<times> world" where
  "lone_admin_rejected =
     clickStatusButton admin0 50 SetRejected (fst lone_admin_approved) (snd lone_admin_approved)"

section \<open>Properties of the storage requests\<close>

lemma same_tables_refl: "same_tables w w"
  by (simp add: same_tables_def)

lemma same_tables_trans: "same_tables a b \<Longrightarrow> same_tables b c \<Longrightarrow> same_tables a c"
  by (simp add: same_tables_def)

lemma request_same_tables: "request op w = (b, w') \<Longrightarrow> same_tables w w'"
  by (auto simp: request_def same_tables_def split: list.splits)

lemma request_trace: "request op w = (b, w') \<Longrightarrow> trace w' = trace w @ [op]"
  by (auto simp: request_def split: list.splits)

lemma foldl_upd_lookup:
  "foldl (\<lambda>acc setting. acc(fst setting \<mapsto> snd setting)) m data k =
     (case map_of (rev data) k of None \<Rightarrow> m k | Some v \<Rightarrow> Some v)"
proof (induction data arbitrary: m)
  case Nil
  then show ?case by simp
next
  case (Cons a data)
  have "foldl (\<lambda>acc setting. acc(fst setting \<mapsto> snd setting)) m (a # data) k =
        foldl (\<lambda>acc setting. acc(fst setting \<mapsto> snd setting)) (m(fst a \<mapsto> snd a)) data k"
    by (simp del: fun_upd_apply)
  also have "\<dots> = (case map_of (rev data) k of None \<Rightarrow> (m(fst a \<mapsto> snd a)) k | Some v \<Rightarrow> Some v)"
    by (rule Cons.IH)
  also have "\<dots> = (case map_of (rev (a # data)) k of None \<Rightarrow> m k | Some v \<Rightarrow> Some v)"
    by (cases a) (auto simp: map_add_def split: option.splits)
  finally show ?case .
qed

lemma settingsMap_of_lookup: "settingsMap_of data k = map_of (rev data) k"
  by (simp add: settingsMap_of_def foldl_upd_lookup split: option.splits)

lemma map_of_filter_key:
  "map_of (filter (\<lambda>s. P (fst s)) xs) k = (if P k then map_of xs k else None)"
  by (induction xs) auto

lemma settingsMap_of_filter:
  "settingsMap_of (filter (\<lambda>s. P (fst s)) sts) k = (if P k then map_of (rev sts) k else None)"
  by (simp add: settingsMap_of_lookup rev_filter map_of_filter_key)

lemma settingsMap_of_limit_rows:
  "settingsMap_of (filter (\<lambda>s. fst s = ''max_game_registrations''
                              \<or> fst s = ''max_athletic_registrations'') sts) k =
     (if k = ''max_game_registrations'' \<or> k = ''max_athletic_registrations''
      then map_of (rev sts) k else None)"
  using settingsMap_of_filter
    [of "\<lambda>k. k = ''max_game_registrations'' \<or> k = ''max_athletic_registrations''" sts k]
  by simp

lemma fetchRegistrationLimits_Inr:
  assumes "fetchRegistrationLimits w = (Inr l, w')"
  shows "same_tables w w'"
    and "maxGameRegistrations l = limit_or_zero (map_of (rev (settings w)) ''max_game_registrations'')"
    and "maxAthleticRegistrations l = limit_or_zero (map_of (rev (settings w)) ''max_athletic_registrations'')"
proof -
  obtain b w1 where r: "request SelectLimits w = (b, w1)" by (cases "request SelectLimits w")
  from assms r have nb: "\<not> b" and w1: "w1 = w'"
    by (auto simp: fetchRegistrationLimits_def Let_def split: if_splits)
  have st: "same_tables w w1" using r by (rule request_same_tables)
  then show "same_tables w w'" using w1 by simp
  have s: "settings w1 = settings w" using st by (simp add: same_tables_def)
  from assms r nb show "maxGameRegistrations l = limit_or_zero (map_of (rev (settings w)) ''max_game_registrations'')"
    by (auto simp: fetchRegistrationLimits_def Let_def s settingsMap_of_limit_rows)
  from assms r nb show "maxAthleticRegistrations l = limit_or_zero (map_of (rev (settings w)) ''max_athletic_registrations'')"
    by (auto simp: fetchRegistrationLimits_def Let_def s settingsMap_of_limit_rows)
qed

lemma fetchRegistrationLimits_same: "fetchRegistrationLimits w = (r, w') \<Longrightarrow> same_tables w w'"
  by (auto simp: fetchRegistrationLimits_def Let_def split: prod.splits if_splits
      dest: request_same_tables)

lemma select_students_in_Inr:
  "select_students_in ids w = (Inr studs, w') \<Longrightarrow>
     same_tables w w' \<and> studs = filter (\<lambda>s. st_id s \<in> set ids) (students w)"
  by (auto simp: select_students_in_def same_tables_def split: prod.splits if_splits
      dest!: request_same_tables)

lemma select_students_in_same: "select_students_in ids w = (r, w') \<Longrightarrow> same_tables w w'"
  by (auto simp: select_students_in_def split: prod.splits if_splits dest: request_same_tables)

lemma select_counted_registrations_Inr:
  "select_counted_registrations ids w = (Inr regs, w') \<Longrightarrow>
     same_tables w w' \<and>
     regs = List.map_filter (join_sport (sports w))
              (filter (\<lambda>r. student_id r \<in> set ids \<and> status r \<in> set [Pending, Approved])
                 (registrations w))"
  by (auto simp: select_counted_registrations_def same_tables_def split: prod.splits if_splits
      dest!: request_same_tables)

lemma select_counted_registrations_same:
  "select_counted_registrations ids w = (r, w') \<Longrightarrow> same_tables w w'"
  by (auto simp: select_counted_registrations_def split: prod.splits if_splits
      dest: request_same_tables)

lemma length_filter_map_filter:
  "length (filter P (List.map_filter f xs)) =
     length (filter (\<lambda>x. case f x of None \<Rightarrow> False | Some y \<Rightarrow> P y) xs)"
  by (induction xs) (auto simp: List.map_filter_simps split: option.splits)

lemma join_sport_type:
  "(case join_sport (sports w) r of None \<Rightarrow> False
    | Some y \<Rightarrow> rs_sport_type y = t \<and> rs_student_id y = sid)
   \<longleftrightarrow> category_of w r = Some t \<and> student_id r = sid"
  by (auto simp: join_sport_def category_of_def split: option.splits)

lemma student_info_count:
  assumes "sid \<in> set ids"
  shows "currentCount (student_info
            (List.map_filter (join_sport (sports w))
               (filter (\<lambda>r. student_id r \<in> set ids \<and> status r \<in> set [Pending, Approved])
                  (registrations w))) t lim (st\<lparr>st_id := sid\<rparr>))
         = int (quota_count w sid t)"
  unfolding student_info_def Let_def quota_count_def
  apply (simp add: length_filter_map_filter)
  apply (rule arg_cong [where f = length])
  apply (rule filter_cong [OF refl])
  using assms apply (auto simp: join_sport_def category_of_def split: option.splits)
  done


lemma resolved_limit_configured:
  "resolved_limit w t = (case configured_limit w t of None \<Rightarrow> 0 | Some n \<Rightarrow> n)"
  by (simp add: resolved_limit_def configured_limit_def limit_or_zero_def split: option.splits)

lemma getStudentRegistrationInfo_Inr:
  assumes "getStudentRegistrationInfo ids t w = (Inr infos, w')" and "ids \<noteq> []"
  shows "same_tables w w'"
    and "infos = map (student_info (counted_rows ids w) t (resolved_limit w t))
                   (filter (\<lambda>s. st_id s \<in> set ids) (students w))"
proof -
  from assms obtain limits w1 where l: "fetchRegistrationLimits w = (Inr limits, w1)"
    by (auto simp: getStudentRegistrationInfo_def split: prod.splits sum.splits)
  from assms l obtain studs w2 where s: "select_students_in ids w1 = (Inr studs, w2)"
    by (auto simp: getStudentRegistrationInfo_def Let_def split: prod.splits sum.splits)
  from assms l s obtain regs where r: "select_counted_registrations ids w2 = (Inr regs, w')"
    by (auto simp: getStudentRegistrationInfo_def Let_def split: prod.splits sum.splits)
  note L = fetchRegistrationLimits_Inr [OF l]
  note S = select_students_in_Inr [OF s]
  note R = select_counted_registrations_Inr [OF r]
  have t1: "same_tables w w2" using L(1) S same_tables_trans by blast
  then show "same_tables w w'" using R same_tables_trans by blast
  have lim: "(if t = Game then maxGameRegistrations limits else maxAthleticRegistrations limits)
             = resolved_limit w t"
    using L(2,3) by (cases t) (simp_all add: resolved_limit_def limit_key_def)
  have studs: "studs = filter (\<lambda>s. st_id s \<in> set ids) (students w)"
    using S L(1) by (simp add: same_tables_def)
  have regs: "regs = counted_rows ids w"
    using R t1 by (simp add: same_tables_def counted_rows_def)
  from assms l s r show "infos = map (student_info (counted_rows ids w) t (resolved_limit w t))
                   (filter (\<lambda>s. st_id s \<in> set ids) (students w))"
    by (simp add: getStudentRegistrationInfo_def Let_def lim studs regs)
qed

lemma getStudentRegistrationInfo_member:
  assumes "getStudentRegistrationInfo ids t w = (Inr infos, w')" and "i \<in> set infos"
  shows "info_id i \<in> set ids" and "info_id i \<in> st_id ` set (students w)"
    and "currentCount i = int (quota_count w (info_id i) t)"
    and "limit i = resolved_limit w t"
proof -
  have ne: "ids \<noteq> []" using assms by (auto simp: getStudentRegistrationInfo_def)
  from getStudentRegistrationInfo_Inr(2) [OF assms(1) ne] assms(2)
  obtain st where st: "st \<in> set (students w)" "st_id st \<in> set ids"
    and i: "i = student_info (counted_rows ids w) t (resolved_limit w t) st"
    by auto
  have id: "info_id i = st_id st" using i by (simp add: student_info_def Let_def)
  show "info_id i \<in> set ids" using id st by simp
  show "info_id i \<in> st_id ` set (students w)" using id st by auto
  show "limit i = resolved_limit w t" using i by (simp add: student_info_def Let_def)
  have "currentCount i = int (quota_count w (st_id st) t)"
    using student_info_count [OF st(2), of w t "resolved_limit w t" st] i
    by (simp add: counted_rows_def)
  then show "currentCount i = int (quota_count w (info_id i) t)" using id by simp
qed

lemma getStudentRegistrationInfo_fst:
  assumes "fst (getStudentRegistrationInfo ids t w) = Inr infos" and "i \<in> set infos"
  shows "info_id i \<in> set ids" and "info_id i \<in> st_id ` set (students w)"
    and "currentCount i = int (quota_count w (info_id i) t)"
    and "limit i = resolved_limit w t"
  using getStudentRegistrationInfo_member
          [of ids t w infos "snd (getStudentRegistrationInfo ids t w)" i] assms
  by (simp_all add: prod_eq_iff)

lemma nonempty_selection_queries:
  "ids \<noteq> [] \<Longrightarrow> trace (snd (getStudentRegistrationInfo ids t w)) \<noteq> trace w"
  by (auto simp: getStudentRegistrationInfo_def fetchRegistrationLimits_def
      select_students_in_def select_counted_registrations_def request_def Let_def
      split: prod.splits sum.splits list.splits if_splits)

section \<open>Properties of the ledger writes\<close>

lemma request_cases:
  "request op w = (b, w') \<Longrightarrow> b = next_request_fails w \<and> same_tables w w'
     \<and> trace w' = trace w @ [op] \<and> faults w' = tl (faults w)"
  by (auto simp: request_def next_request_fails_def same_tables_def split: list.splits)

lemma stamp_student_ids: "map student_id (stamp n c rows) = map ins_student_id rows"
  by (induction rows arbitrary: n) auto

lemma stamp_sport_ids: "map sport_id (stamp n c rows) = map ins_sport_id rows"
  by (induction rows arbitrary: n) auto

lemma stamp_statuses: "map status (stamp n c rows) = map ins_status rows"
  by (induction rows arbitrary: n) auto

lemma stamp_keys:
  "map (\<lambda>r. (student_id r, sport_id r)) (stamp n c rows)
     = map (\<lambda>x. (ins_student_id x, ins_sport_id x)) rows"
  by (induction rows arbitrary: n) auto

lemma length_stamp: "length (stamp n c rows) = length rows"
  by (induction rows arbitrary: n) auto

lemma insert_registrations_Inr:
  assumes "insert_registrations rows w = (Inr u, w')"
  shows "registrations w' = registrations w @ stamp (next_id w) (clock w) rows"
    and "students w' = students w" and "sports w' = sports w" and "settings w' = settings w"
    and "insert_accepted rows w" and "\<not> next_request_fails w"
    and "faults w' = tl (faults w)"
proof -
  obtain b w1 where r: "request InsertRegistrations w = (b, w1)"
    by (cases "request InsertRegistrations w")
  note R = request_cases [OF r]
  from assms r show "registrations w' = registrations w @ stamp (next_id w) (clock w) rows"
    using R by (auto simp: insert_registrations_def Let_def same_tables_def split: if_splits)
  from assms r show "students w' = students w"
    using R by (auto simp: insert_registrations_def Let_def same_tables_def split: if_splits)
  from assms r show "sports w' = sports w"
    using R by (auto simp: insert_registrations_def Let_def same_tables_def split: if_splits)
  from assms r show "settings w' = settings w"
    using R by (auto simp: insert_registrations_def Let_def same_tables_def split: if_splits)
  from assms r show "\<not> next_request_fails w"
    using R by (auto simp: insert_registrations_def Let_def split: if_splits)
  from assms r show "faults w' = tl (faults w)"
    using R by (auto simp: insert_registrations_def Let_def split: if_splits)
  from assms r have "distinct (map (\<lambda>x. (ins_student_id x, ins_sport_id x)) rows)"
    and "\<forall>x \<in> set rows. (ins_student_id x, ins_sport_id x) \<notin> set (ledger_keys w1)"
    and "\<forall>x \<in> set rows. ins_student_id x \<in> st_id ` set (students w1)
                         \<and> ins_sport_id x \<in> sp_id ` set (sports w1)"
    by (auto simp: insert_registrations_def Let_def ledger_keys_def split: if_splits)
  then show "insert_accepted rows w"
    using R by (simp add: insert_accepted_def same_tables_def ledger_keys_def)
qed

lemma insert_registrations_Inl:
  assumes "insert_registrations rows w = (Inl e, w')"
  shows "same_tables w w'"
    and "e = StorageError InsertRegistrations \<and> next_request_fails w
         \<or> e \<in> {UniqueViolation, ForeignKeyViolation} \<and> \<not> next_request_fails w
            \<and> \<not> insert_accepted rows w"
proof -
  obtain b w1 where r: "request InsertRegistrations w = (b, w1)"
    by (cases "request InsertRegistrations w")
  note R = request_cases [OF r]
  from assms r R show "same_tables w w'"
    by (auto simp: insert_registrations_def Let_def split: if_splits)
  have k: "insert_accepted rows w1 = insert_accepted rows w"
    using R by (simp add: same_tables_def ledger_keys_def insert_accepted_def)
  have b: "b = next_request_fails w" using R by simp
  from assms r have "e = StorageError InsertRegistrations \<and> b
         \<or> e \<in> {UniqueViolation, ForeignKeyViolation} \<and> \<not> b \<and> \<not> insert_accepted rows w1"
    by (auto simp: insert_registrations_def Let_def insert_accepted_def ledger_keys_def
        split: if_splits)
  then show "e = StorageError InsertRegistrations \<and> next_request_fails w
         \<or> e \<in> {UniqueViolation, ForeignKeyViolation} \<and> \<not> next_request_fails w
            \<and> \<not> insert_accepted rows w"
    unfolding k b .
qed

lemma insert_registrations_accepted:
  assumes "insert_accepted rows w" and "\<not> next_request_fails w"
  shows "\<exists>w'. insert_registrations rows w = (Inr (), w')"
proof -
  obtain r w' where x: "insert_registrations rows w = (r, w')"
    by (cases "insert_registrations rows w")
  show ?thesis
  proof (cases r)
    case (Inl e)
    with x insert_registrations_Inl(2) [of rows w e w'] assms show ?thesis by auto
  next
    case (Inr u)
    with x show ?thesis by simp
  qed
qed

lemma unique_key_filter_length:
  "distinct (map fst xs) \<Longrightarrow> length (filter (\<lambda>s. fst s = k) xs) \<le> 1"
proof (induction xs)
  case Nil
  then show ?case by simp
next
  case (Cons a xs)
  show ?case
  proof (cases "fst a = k")
    case True
    then have "k \<notin> fst ` set xs" using Cons.prems by simp
    then have "filter (\<lambda>s. fst s = k) xs = []"
      by (simp add: filter_empty_conv image_iff) blast
    then show ?thesis using True by simp
  next
    case False
    then show ?thesis using Cons by simp
  qed
qed

lemma single_row_enabled:
  assumes "distinct (map fst xs)"
  shows "(case (case filter (\<lambda>s. fst s = k) xs of [] \<Rightarrow> None | [row] \<Rightarrow> Some (snd row)
                | row # row2 # rest \<Rightarrow> None) of
            None \<Rightarrow> False
          | Some v \<Rightarrow> (case sv_enabled v of None \<Rightarrow> False | Some b \<Rightarrow> b))
         \<longleftrightarrow> (\<exists>s \<in> set xs. fst s = k \<and> sv_enabled (snd s) = Some True)"
proof (cases "filter (\<lambda>s. fst s = k) xs")
  case Nil
  then have "\<forall>s \<in> set xs. fst s \<noteq> k" by (simp add: filter_empty_conv)
  then show ?thesis using Nil by auto
next
  case (Cons row others)
  have "length (filter (\<lambda>s. fst s = k) xs) \<le> 1"
    using assms by (rule unique_key_filter_length)
  then have m: "others = []" using Cons by simp
  have "set (filter (\<lambda>s. fst s = k) xs) = {row}" using Cons m by simp
  then have e: "\<And>s. (s \<in> set xs \<and> fst s = k) = (s = row)" by auto
  have "(\<exists>s \<in> set xs. fst s = k \<and> sv_enabled (snd s) = Some True)
        = (\<exists>s. (s \<in> set xs \<and> fst s = k) \<and> sv_enabled (snd s) = Some True)"
    by blast
  also have "\<dots> = (sv_enabled (snd row) = Some True)" unfolding e by simp
  finally show ?thesis using Cons m by (simp split: option.splits)
qed

lemma select_auto_approve_result:
  assumes "select_auto_approve w = (r, w')" and "unique_setting_keys w"
  shows "same_tables w w'" and "faults w' = tl (faults w)"
    and "(case r of None \<Rightarrow> False | Some v \<Rightarrow> (case sv_enabled v of None \<Rightarrow> False | Some b \<Rightarrow> b))
          \<longleftrightarrow> auto_approve_enabled w \<and> \<not> next_request_fails w"
proof -
  obtain b w1 where q: "request SelectAutoApprove w = (b, w1)"
    by (cases "request SelectAutoApprove w")
  note R = request_cases [OF q]
  from assms(1) q R show "same_tables w w'" "faults w' = tl (faults w)"
    by (auto simp: select_auto_approve_def split: if_splits list.splits)
  have s: "settings w1 = settings w" using R by (simp add: same_tables_def)
  have b: "b = next_request_fails w" using R by simp
  show "(case r of None \<Rightarrow> False | Some v \<Rightarrow> (case sv_enabled v of None \<Rightarrow> False | Some b \<Rightarrow> b))
          \<longleftrightarrow> auto_approve_enabled w \<and> \<not> next_request_fails w"
  proof (cases b)
    case True
    then have "r = None" using assms(1) q by (simp add: select_auto_approve_def)
    then show ?thesis using True b by simp
  next
    case False
    then have "r = (case filter (\<lambda>s. fst s = ''auto_approve_registrations'') (settings w) of
                      [] \<Rightarrow> None | [row] \<Rightarrow> Some (snd row) | row # row2 # rest \<Rightarrow> None)"
      using assms(1) q s by (auto simp: select_auto_approve_def split: list.splits)
    then show ?thesis
      using single_row_enabled [of "settings w" "''auto_approve_registrations''"] assms(2)
        False b
      by (simp add: unique_setting_keys_def auto_approve_enabled_def)
  qed
qed

lemma select_auto_approve_same:
  "select_auto_approve w = (r, w') \<Longrightarrow> same_tables w w' \<and> faults w' = tl (faults w)"
  by (auto simp: select_auto_approve_def split: prod.splits if_splits list.splits
      dest!: request_cases)

lemma insert_activity_log_tables:
  "registrations (insert_activity_log e w) = registrations w
   \<and> students (insert_activity_log e w) = students w
   \<and> sports (insert_activity_log e w) = sports w
   \<and> settings (insert_activity_log e w) = settings w"
  by (auto simp: insert_activity_log_def same_tables_def split: prod.splits
      dest!: request_cases)

lemma insert_accepted_same_tables:
  "same_tables w w' \<Longrightarrow> insert_accepted rows w' = insert_accepted rows w"
  by (simp add: insert_accepted_def same_tables_def ledger_keys_def)

lemma insert_accepted_batch_rows:
  "insert_accepted (batch_rows p sp s ids) w \<longleftrightarrow>
     distinct ids
     \<and> (\<forall>sid \<in> set ids. (sid, sp_id sp) \<notin> set (ledger_keys w)
                         \<and> sid \<in> st_id ` set (students w)
                         \<and> sp_id sp \<in> sp_id ` set (sports w))"
proof -
  have "map (\<lambda>x. (ins_student_id x, ins_sport_id x)) (batch_rows p sp s ids)
          = map (\<lambda>sid. (sid, sp_id sp)) ids"
    by (simp add: batch_rows_def)
  moreover have "distinct (map (\<lambda>sid. (sid, sp_id sp)) ids) = distinct ids"
    by (simp add: distinct_map inj_on_def)
  ultimately show ?thesis
    by (simp add: insert_accepted_def batch_rows_def comp_def)
qed

lemma performRegistration_unfold:
  assumes "select_auto_approve w = (r, w1)"
  shows "performRegistration p sp fs w =
     (let a = (case r of None \<Rightarrow> False
               | Some v \<Rightarrow> (case sv_enabled v of None \<Rightarrow> False | Some b \<Rightarrow> b))
      in (case insert_registrations
                (batch_rows p sp (if a then Approved else Pending) (selectedStudents fs)) w1 of
            (Inl e, w2) \<Rightarrow>
              (fs\<lparr>toasts := toasts fs @ [RegistrationFailed], registering := False\<rparr>, w2)
          | (Inr u, w2) \<Rightarrow>
              (fs\<lparr>toasts := toasts fs
                        @ [RegistrationSucceeded (length (selectedStudents fs)) a],
                   registering := False\<rparr>,
               insert_activity_log
                 \<lparr> log_user_id = profile_id p, log_action = ''students_registered'',
                   log_registration = None, log_students = selectedStudents fs \<rparr> w2)))"
  using assms
  by (simp add: performRegistration_def batch_rows_def Let_def split: prod.splits sum.splits)

lemma performRegistration_result:
  assumes "performRegistration p sp fs w = (fs', w')"
  shows "(registrations w' = registrations w
            \<and> toasts fs' = toasts fs @ [RegistrationFailed])
         \<or> (\<exists>a. registrations w' = registrations w
                    @ stamp (next_id w) (clock w)
                        (batch_rows p sp (if a then Approved else Pending) (selectedStudents fs))
               \<and> toasts fs' = toasts fs @ [RegistrationSucceeded (length (selectedStudents fs)) a]
               \<and> insert_accepted
                    (batch_rows p sp (if a then Approved else Pending) (selectedStudents fs)) w
               \<and> (unique_setting_keys w \<longrightarrow>
                    a = (auto_approve_enabled w \<and> \<not> next_request_fails w)))"
proof -
  obtain r w1 where s: "select_auto_approve w = (r, w1)"
    by (cases "select_auto_approve w")
  define a where "a = (case r of None \<Rightarrow> False
               | Some v \<Rightarrow> (case sv_enabled v of None \<Rightarrow> False | Some b \<Rightarrow> b))"
  define rows where "rows = batch_rows p sp (if a then Approved else Pending) (selectedStudents fs)"
  note S = select_auto_approve_same [OF s]
  obtain x w2 where i: "insert_registrations rows w1 = (x, w2)"
    by (cases "insert_registrations rows w1")
  show ?thesis
  proof (cases x)
    case (Inl e)
    have "same_tables w1 w2" using i Inl insert_registrations_Inl(1) by blast
    moreover have "fs' = fs\<lparr>toasts := toasts fs @ [RegistrationFailed], registering := False\<rparr>"
      and "w' = w2"
      using assms i Inl by (simp_all add: performRegistration_unfold [OF s] a_def rows_def Let_def)
    ultimately show ?thesis using S by (simp add: same_tables_def)
  next
    case (Inr u)
    note I = insert_registrations_Inr [OF i [unfolded Inr]]
    have f: "fs' = fs\<lparr>toasts := toasts fs
                        @ [RegistrationSucceeded (length (selectedStudents fs)) a],
                   registering := False\<rparr>"
      and w: "w' = insert_activity_log
                 \<lparr> log_user_id = profile_id p, log_action = ''students_registered'',
                   log_registration = None, log_students = selectedStudents fs \<rparr> w2"
      using assms i Inr by (simp_all add: performRegistration_unfold [OF s] a_def rows_def Let_def)
    have 1: "registrations w' = registrations w @ stamp (next_id w) (clock w) rows"
      using w I(1) S by (simp add: insert_activity_log_tables same_tables_def)
    have 2: "insert_accepted rows w"
      using I(5) S insert_accepted_same_tables by blast
    have 3: "unique_setting_keys w \<longrightarrow> a = (auto_approve_enabled w \<and> \<not> next_request_fails w)"
      using select_auto_approve_result(3) [OF s] by (simp add: a_def)
    show ?thesis using 1 2 3 f unfolding rows_def by auto
  qed
qed

section \<open>Counting registrations\<close>









section \<open>Reads leave the tables unchanged\<close>

lemmas read_same =
  fetchRegistrationLimits_same [unfolded same_tables_def]
  select_students_in_same [unfolded same_tables_def]
  select_counted_registrations_same [unfolded same_tables_def]

lemma getStudentRegistrationInfo_same:
  "getStudentRegistrationInfo ids t w = (r, w') \<Longrightarrow> same_tables w w'"
  unfolding getStudentRegistrationInfo_def Let_def
  by (auto simp: same_tables_def split: if_splits prod.splits sum.splits dest!: read_same)

lemma select_registration_views_same:
  "select_registration_views yf w = (r, w') \<Longrightarrow> same_tables w w'"
  by (auto simp: select_registration_views_def Let_def
      split: prod.splits if_splits option.splits dest!: request_cases)

lemma fetchRegistrationLimitsData_same:
  "fetchRegistrationLimitsData page w = (page', w') \<Longrightarrow> same_tables w w'"
  by (auto simp: fetchRegistrationLimitsData_def same_tables_def split: prod.splits sum.splits
      dest!: read_same)

lemma Registrations_fetchStudentRegistrationCounts_same:
  "Registrations_fetchStudentRegistrationCounts regs page w = (page', w') \<Longrightarrow> same_tables w w'"
  by (auto simp: Registrations_fetchStudentRegistrationCounts_def Let_def same_tables_def
      split: prod.splits sum.splits dest!: read_same)

lemma fetchRegistrations_same:
  assumes "fetchRegistrations p page w = (page', w')"
  shows "same_tables w w'"
proof -
  obtain r w1 where s: "select_registration_views
             (if role p \<noteq> Admin then Some (coordinator_year (role_string (role p))) else None) w
           = (r, w1)"
    by (cases "select_registration_views
             (if role p \<noteq> Admin then Some (coordinator_year (role_string (role p))) else None) w")
  have 1: "same_tables w w1" using s by (rule select_registration_views_same)
  show ?thesis
  proof (cases r)
    case (Inl e)
    then show ?thesis using assms s 1 by (simp add: fetchRegistrations_def)
  next
    case (Inr data)
    show ?thesis
    proof (cases "role p = Admin")
      case False
      then show ?thesis using assms s 1 Inr by (simp add: fetchRegistrations_def Let_def)
    next
      case True
      obtain page2 w2 where l: "fetchRegistrationLimitsData (page\<lparr>page_registrations := data\<rparr>) w1
                                 = (page2, w2)"
        by (cases "fetchRegistrationLimitsData (page\<lparr>page_registrations := data\<rparr>) w1")
      have 2: "same_tables w1 w2" using l by (rule fetchRegistrationLimitsData_same)
      have "Registrations_fetchStudentRegistrationCounts data page2 w2 = (page', w')"
        using assms s Inr True l by (simp add: fetchRegistrations_def Let_def)
      then have "same_tables w2 w'" by (rule Registrations_fetchStudentRegistrationCounts_same)
      then show ?thesis using 1 2 same_tables_trans by blast
    qed
  qed
qed

section \<open>The quota evaluator\<close>

text \<open>
  C1 (as amended). When the limit configured for a category is 0, or none is configured
  (the program then takes 0), every student in the result of the evaluator is reported
  at the limit, whatever the student's count: \<open>currentCount >= 0\<close> always holds.
  A limit of 0 does not switch the quota off.
\<close>

theorem zero_limit_reports_every_student_exceeded:
  assumes "fst (getStudentRegistrationInfo ids t w) = Inr infos"
    and "configured_limit w t = None \<or> configured_limit w t = Some 0"
  shows "getStudentsExceedingLimits infos t = infos
         \<and> studentsAtLimit (checkRegistrationLimits infos t) = infos
         \<and> (\<forall>i \<in> set infos. limit i = 0 \<and> limit i \<le> currentCount i)"
proof -
  have z: "resolved_limit w t = 0"
    using assms(2) by (auto simp: resolved_limit_configured)
  have a: "\<forall>i \<in> set infos. limit i = 0 \<and> limit i \<le> currentCount i"
    using getStudentRegistrationInfo_fst(3,4) [OF assms(1)] z by simp
  then have "filter (\<lambda>s. limit s \<le> currentCount s) infos = infos"
    by (auto simp: filter_id_conv)
  then show ?thesis using a
    by (auto simp: getStudentsExceedingLimits_def checkRegistrationLimits_def Let_def)
qed

text \<open>
  C1, witness: with no settings row at all, both students of \<open>bare_world\<close> are
  reported at the athletic limit although neither holds a registration.
\<close>

theorem zero_limit_witness:
  "fst (getStudentRegistrationInfo [1, 2] Athletic bare_world)
     = Inr [info_of alice 0 0 [], info_of bob 0 0 []]
   \<and> configured_limit bare_world Athletic = None
   \<and> getStudentsExceedingLimits [info_of alice 0 0 [], info_of bob 0 0 []] Athletic
       = [info_of alice 0 0 [], info_of bob 0 0 []]"
proof -
  have r: "fst (getStudentRegistrationInfo [1, 2] Athletic bare_world)
             = Inr [info_of alice 0 0 [], info_of bob 0 0 []]"
    by code_simp
  have c: "configured_limit bare_world Athletic = None"
    by (simp add: configured_limit_def bare_world_def)
  from zero_limit_reports_every_student_exceeded [OF r] c r show ?thesis by simp
qed

text \<open>
  C1, counterexample to the claim as stated (limit 0 gives exceeded = false for every
  student): with no game limit configured Alice, who holds no registration, is in the
  list of exceeding students; with the game limit set to 0 so is Bob.
\<close>

theorem zero_limit_counterexample:
  "configured_limit bare_world Game = None
   \<and> fst (getStudentRegistrationInfo [1] Game bare_world) = Inr [info_of alice 0 0 []]
   \<and> getStudentsExceedingLimits [info_of alice 0 0 []] Game = [info_of alice 0 0 []]
   \<and> configured_limit zero_limit_world Game = Some 0
   \<and> fst (getStudentRegistrationInfo [2] Game zero_limit_world)
       = Inr [info_of bob 1 0 [\<lparr> sport_name = ''Chess'', sport_type = Game \<rparr>]]
   \<and> getStudentsExceedingLimits
         [info_of bob 1 0 [\<lparr> sport_name = ''Chess'', sport_type = Game \<rparr>]] Game
       = [info_of bob 1 0 [\<lparr> sport_name = ''Chess'', sport_type = Game \<rparr>]]"
  by code_simp



text \<open>
  C9. For the empty list of student ids the evaluator returns the empty result and
  issues no storage request: the state, with its trace of requests, is unchanged.
\<close>

theorem empty_selection_no_query:
  "getStudentRegistrationInfo [] t w = (Inr [], w)
   \<and> trace (snd (getStudentRegistrationInfo [] t w)) = trace w"
  by (simp add: getStudentRegistrationInfo_def)

lemma stamp_batch_rows_member:
  assumes "r \<in> set (stamp n c (batch_rows p sp s ids))"
  shows "status r = s" and "sport_id r = sp_id sp"
proof -
  have "status r \<in> set (map status (stamp n c (batch_rows p sp s ids)))"
    using assms by simp
  then show "status r = s" unfolding stamp_statuses by (auto simp: batch_rows_def)
  have "sport_id r \<in> set (map sport_id (stamp n c (batch_rows p sp s ids)))"
    using assms by simp
  then show "sport_id r = sp_id sp" unfolding stamp_sport_ids by (auto simp: batch_rows_def)
qed

lemma stamp_batch_rows_students:
  "map student_id (stamp n c (batch_rows p sp s ids)) = ids"
  by (simp add: stamp_student_ids batch_rows_def comp_def)

section \<open>The registration workflow\<close>

text \<open>
  C7 (as amended). When a batch is registered successfully, every registration created
  has the same initial status: approved when the auto-approve setting is enabled and the
  form's read of the setting succeeded, pending when the setting is disabled or absent,
  and pending as well when the read of the setting fails, whatever the setting: the
  program does not look at the error of that read and takes the setting as disabled.
\<close>

theorem initial_status_follows_auto_approve:
  assumes "performRegistration p sp fs w = (fs', w')"
    and "toasts fs' = toasts fs @ [RegistrationSucceeded n a]"
    and "unique_setting_keys w"
  shows "\<exists>new. registrations w' = registrations w @ new
           \<and> map student_id new = selectedStudents fs
           \<and> (auto_approve_enabled w \<and> \<not> next_request_fails w
                \<longrightarrow> (\<forall>r \<in> set new. status r = Approved))
           \<and> (\<not> auto_approve_enabled w \<or> next_request_fails w
                \<longrightarrow> (\<forall>r \<in> set new. status r = Pending))
           \<and> (\<forall>r \<in> set new. \<forall>r' \<in> set new. status r = status r')"
proof -
  from performRegistration_result [OF assms(1)] assms(2,3)
  obtain b where
    1: "registrations w' = registrations w
          @ stamp (next_id w) (clock w)
              (batch_rows p sp (if b then Approved else Pending) (selectedStudents fs))"
    and 2: "b = (auto_approve_enabled w \<and> \<not> next_request_fails w)"
    by auto
  let ?new = "stamp (next_id w) (clock w)
                (batch_rows p sp (if b then Approved else Pending) (selectedStudents fs))"
  have s: "\<forall>r \<in> set ?new. status r = (if b then Approved else Pending)"
    using stamp_batch_rows_member(1) by blast
  have "map student_id ?new = selectedStudents fs"
    by (rule stamp_batch_rows_students)
  moreover have "auto_approve_enabled w \<and> \<not> next_request_fails w
                   \<longrightarrow> (\<forall>r \<in> set ?new. status r = Approved)"
    using s 2 by simp
  moreover have "\<not> auto_approve_enabled w \<or> next_request_fails w
                   \<longrightarrow> (\<forall>r \<in> set ?new. status r = Pending)"
    using s 2 by auto
  moreover have "\<forall>r \<in> set ?new. \<forall>r' \<in> set ?new. status r = status r'"
    using s by simp
  ultimately show ?thesis using 1 by blast
qed

text \<open>
  C7, witness: with auto-approve enabled, registering Alice and Carol for chess creates
  two approved registrations.
\<close>

theorem initial_status_witness:
  "unique_setting_keys auto_world \<and> auto_approve_enabled auto_world
   \<and> \<not> next_request_fails auto_world
   \<and> toasts (fst (performRegistration coordinator1 chess form0 auto_world))
       = toasts form0 @ [RegistrationSucceeded 2 True]
   \<and> map status (registrations (snd (performRegistration coordinator1 chess form0 auto_world)))
       = [Approved, Approved]"
proof -
  let ?r = "performRegistration coordinator1 chess form0 auto_world"
  have u: "unique_setting_keys auto_world" by code_simp
  have e: "auto_approve_enabled auto_world" by code_simp
  have f: "\<not> next_request_fails auto_world" by code_simp
  have t: "toasts (fst ?r) = toasts form0 @ [RegistrationSucceeded 2 True]" by code_simp
  have p: "?r = (fst ?r, snd ?r)" by simp
  have z: "registrations auto_world = []" by code_simp
  have sel: "selectedStudents form0 = [1, 3]" by code_simp
  from initial_status_follows_auto_approve [OF p t u] e f z sel
  obtain new where n: "registrations (snd ?r) = new" "map student_id new = [1, 3]"
    "\<forall>r \<in> set new. status r = Approved"
    by auto
  from n(2) have "length new = 2" using length_map [of student_id new] by simp
  then obtain x y where "new = [x, y]"
    by (cases new; cases "tl new"; cases "tl (tl new)") auto
  then have "map status new = [Approved, Approved]" using n(3) by simp
  then show ?thesis using u e f t n(1) by simp
qed

text \<open>
  C7, counterexample to the claim as stated (auto-approve enabled gives approved): the
  setting is enabled, the read of it fails, the insert succeeds; the form reports success
  and the two registrations created are pending.
\<close>

theorem initial_status_counterexample:
  "auto_approve_enabled (auto_world\<lparr>faults := [True]\<rparr>)
   \<and> toasts (fst (performRegistration coordinator1 chess form0 (auto_world\<lparr>faults := [True]\<rparr>)))
       = [RegistrationSucceeded 2 False]
   \<and> map student_id
        (registrations
           (snd (performRegistration coordinator1 chess form0 (auto_world\<lparr>faults := [True]\<rparr>))))
       = [1, 3]
   \<and> map status
        (registrations
           (snd (performRegistration coordinator1 chess form0 (auto_world\<lparr>faults := [True]\<rparr>))))
       = [Pending, Pending]"
  by code_simp

section \<open>Reading the system settings\<close>

lemma settingsMap_of_signup_rows:
  "settingsMap_of (filter (\<lambda>s. fst s = ''sign_up_enabled'') sts) ''sign_up_enabled''
     = map_of (rev sts) ''sign_up_enabled''"
  using settingsMap_of_filter [of "\<lambda>k. k = ''sign_up_enabled''" sts "''sign_up_enabled''"]
  by simp

lemma fetchSystemSettings_try_result:
  "fst (fetchSystemSettings_try w) =
     (if next_request_fails w then Inl (StorageError SelectSystemSettings)
      else Inr \<lparr> signUpEnabled =
                   ((case map_of (rev (settings w)) ''sign_up_enabled'' of
                       None \<Rightarrow> None | Some v \<Rightarrow> sv_enabled v) \<noteq> Some False) \<rparr>)"
proof -
  obtain b w1 where q: "request SelectSystemSettings w = (b, w1)"
    by (cases "request SelectSystemSettings w")
  note R = request_cases [OF q]
  have s: "settings w1 = settings w" using R by (simp add: same_tables_def)
  show ?thesis using q R
    by (simp add: fetchSystemSettings_try_def Let_def s settingsMap_of_signup_rows)
qed

lemma fetchSystemSettings_result:
  "fst (fetchSystemSettings w) =
     Inr \<lparr> signUpEnabled =
             (next_request_fails w
              \<or> (case map_of (rev (settings w)) ''sign_up_enabled'' of
                    None \<Rightarrow> None | Some v \<Rightarrow> sv_enabled v) \<noteq> Some False) \<rparr>"
  using fetchSystemSettings_try_result [of w]
  by (cases "fetchSystemSettings_try w")
     (auto simp: fetchSystemSettings_def split: sum.splits if_splits)

text \<open>
  C10. \<open>fetchSystemSettings\<close> never throws: whatever the outcome of the storage read
  it returns settings. Sign-up is reported enabled when the read fails and when no
  \<open>sign_up_enabled\<close> row exists; it is reported disabled only when the read succeeds and
  the row holds \<open>enabled = false\<close>.
\<close>

theorem fetchSystemSettings_never_throws:
  "(\<exists>s. fst (fetchSystemSettings w) = Inr s)
   \<and> (next_request_fails w
        \<longrightarrow> fst (fetchSystemSettings w) = Inr \<lparr> signUpEnabled = True \<rparr>)
   \<and> (map_of (rev (settings w)) ''sign_up_enabled'' = None
        \<longrightarrow> fst (fetchSystemSettings w) = Inr \<lparr> signUpEnabled = True \<rparr>)
   \<and> (fst (fetchSystemSettings w) = Inr \<lparr> signUpEnabled = False \<rparr>
        \<longleftrightarrow> \<not> next_request_fails w
            \<and> (\<exists>v. map_of (rev (settings w)) ''sign_up_enabled'' = Some v
                     \<and> sv_enabled v = Some False))"
  unfolding fetchSystemSettings_result by (auto split: option.splits)

text \<open>
  C10, witness: sign-up switched off is reported as such; the same state with a failing
  read, and a state without the row, report sign-up enabled.
\<close>

theorem fetchSystemSettings_witness:
  "fst (fetchSystemSettings signup_closed_world) = Inr \<lparr> signUpEnabled = False \<rparr>
   \<and> next_request_fails (signup_closed_world\<lparr>faults := [True]\<rparr>)
   \<and> fst (fetchSystemSettings (signup_closed_world\<lparr>faults := [True]\<rparr>))
       = Inr \<lparr> signUpEnabled = True \<rparr>
   \<and> map_of (rev (settings bare_world)) ''sign_up_enabled'' = None
   \<and> fst (fetchSystemSettings bare_world) = Inr \<lparr> signUpEnabled = True \<rparr>"
proof -
  have a: "\<not> next_request_fails signup_closed_world
           \<and> (\<exists>v. map_of (rev (settings signup_closed_world)) ''sign_up_enabled'' = Some v
                    \<and> sv_enabled v = Some False)"
    by (simp add: next_request_fails_def signup_closed_world_def bare_world_def)
  have b: "next_request_fails (signup_closed_world\<lparr>faults := [True]\<rparr>)"
    by (simp add: next_request_fails_def)
  have c: "map_of (rev (settings bare_world)) ''sign_up_enabled'' = None"
    by (simp add: bare_world_def)
  show ?thesis
    using fetchSystemSettings_never_throws [of signup_closed_world]
      fetchSystemSettings_never_throws [of "signup_closed_world\<lparr>faults := [True]\<rparr>"]
      fetchSystemSettings_never_throws [of bare_world] a b c
    by blast
qed

section \<open>The scope of a role\<close>

lemma coordinator_year_label:
  "policy_year r = Some y \<Longrightarrow> coordinator_year (role_string r) = year_label y"
  by (cases r) (auto simp: coordinator_year_def)

lemma parse_year_label: "parse_academic_year (year_label y) = Some y"
  by (cases y) (simp_all add: parse_academic_year_def)

lemma policy_year_not_admin: "policy_year r = Some y \<Longrightarrow> r \<noteq> Admin"
  by (cases r) auto

lemma select_students_of_year_result:
  "fst (select_students_of_year (year_label y) w) =
     (if next_request_fails w then Inl (StorageError SelectStudents)
      else Inr (filter (\<lambda>s. st_year s = y) (students w)))"
proof -
  obtain b w1 where q: "request SelectStudents w = (b, w1)"
    by (cases "request SelectStudents w")
  note R = request_cases [OF q]
  have s: "students w1 = students w" using R by (simp add: same_tables_def)
  show ?thesis using q R
    by (simp add: select_students_of_year_def parse_year_label s)
qed

lemma select_all_students_result:
  "fst (select_all_students w) =
     (if next_request_fails w then Inl (StorageError SelectStudents)
      else Inr (students w))"
proof -
  obtain b w1 where q: "request SelectStudents w = (b, w1)"
    by (cases "request SelectStudents w")
  note R = request_cases [OF q]
  have s: "students w1 = students w" using R by (simp add: same_tables_def)
  show ?thesis using q R
    by (simp add: select_all_students_def s)
qed

text \<open>
  C6. For each of the four coordinator roles the year obtained by stripping
  \<open>_coordinator\<close> and \<open>_year\<close> from the role string is the label of the year the
  access policy gives the role, and (when the read succeeds) the students listed for the
  role, in the registration form and on the page Students, are exactly the students of
  that year. For the admin the page Students lists every student.
\<close>

theorem coordinator_scope_is_own_year:
  "(policy_year (role p) = Some y \<and> \<not> next_request_fails w \<longrightarrow>
      coordinator_year (role_string (role p)) = year_label y
      \<and> (\<exists>fs'. fst (fetchStudents p fs w) = Inr fs'
            \<and> set (form_students fs') = {s \<in> set (students w). st_year s = y})
      \<and> set (fst (fst (Students_fetchStudents p shown w)))
          = {s \<in> set (students w). st_year s = y})
   \<and> (role p = Admin \<and> \<not> next_request_fails w \<longrightarrow>
        set (fst (fst (Students_fetchStudents p shown w))) = set (students w))"
proof (intro conjI impI)
  assume a: "policy_year (role p) = Some y \<and> \<not> next_request_fails w"
  then have l: "coordinator_year (role_string (role p)) = year_label y"
    and na: "role p \<noteq> Admin"
    using coordinator_year_label policy_year_not_admin by blast+
  show "coordinator_year (role_string (role p)) = year_label y" by (rule l)
  have r: "fst (select_students_of_year (year_label y) w)
             = Inr (filter (\<lambda>s. st_year s = y) (students w))"
    using a by (simp add: select_students_of_year_result)
  show "\<exists>fs'. fst (fetchStudents p fs w) = Inr fs'
            \<and> set (form_students fs') = {s \<in> set (students w). st_year s = y}"
    using r na l
    by (cases "select_students_of_year (year_label y) w")
       (auto simp: fetchStudents_def Let_def)
  show "set (fst (fst (Students_fetchStudents p shown w)))
          = {s \<in> set (students w). st_year s = y}"
    using r na l
    by (cases "select_students_of_year (year_label y) w")
       (auto simp: Students_fetchStudents_def)
next
  assume a: "role p = Admin \<and> \<not> next_request_fails w"
  then have r: "fst (select_all_students w) = Inr (students w)"
    by (simp add: select_all_students_result)
  show "set (fst (fst (Students_fetchStudents p shown w))) = set (students w)"
    using r a
    by (cases "select_all_students w") (auto simp: Students_fetchStudents_def)
qed

text \<open>
  C6, witness: the first-year coordinator sees Alice and Carol, the admin sees all three
  students.
\<close>

theorem coordinator_scope_witness:
  "policy_year (role coordinator1) = Some FirstYear \<and> \<not> next_request_fails bare_world
   \<and> coordinator_year (role_string (role coordinator1)) = ''first''
   \<and> set (fst (fst (Students_fetchStudents coordinator1 [] bare_world))) = {alice, carol}
   \<and> role admin0 = Admin
   \<and> set (fst (fst (Students_fetchStudents admin0 [] bare_world))) = {alice, bob, carol}"
proof -
  have a: "policy_year (role coordinator1) = Some FirstYear" by (simp add: coordinator1_def)
  have b: "\<not> next_request_fails bare_world"
    by (simp add: next_request_fails_def bare_world_def)
  have c: "role admin0 = Admin" by (simp add: admin0_def)
  have d: "{s \<in> set (students bare_world). st_year s = FirstYear} = {alice, carol}"
    by (auto simp: bare_world_def alice_def bob_def carol_def)
  have e: "set (students bare_world) = {alice, bob, carol}"
    by (auto simp: bare_world_def)
  show ?thesis
    using coordinator_scope_is_own_year [of coordinator1 FirstYear bare_world form0 "[]"]
      coordinator_scope_is_own_year [of admin0 FirstYear bare_world form0 "[]"] a b c d e
    by simp
qed

lemma category_of_registrations_update [simp]:
  "category_of (w\<lparr>registrations := x\<rparr>) r = category_of w r"
  by (simp add: category_of_def)

lemma delete_registration_result:
  "fst (delete_registration rid w) = Inr u \<Longrightarrow>
     registrations (snd (delete_registration rid w))
       = filter (\<lambda>r. reg_id r \<noteq> rid) (registrations w)
     \<and> sports (snd (delete_registration rid w)) = sports w"
  by (auto simp: delete_registration_def same_tables_def split: prod.splits if_splits
      dest!: request_cases)

lemma delete_registration_Inl:
  "delete_registration rid w = (Inl e, w') \<Longrightarrow> same_tables w w'"
  by (auto simp: delete_registration_def split: prod.splits if_splits dest!: request_cases)

section \<open>What counts toward the quota\<close>





section \<open>How the operations change the ledger\<close>

lemma insert_activity_log_registrations [simp]:
  "registrations (insert_activity_log e w) = registrations w"
  by (simp add: insert_activity_log_tables)

lemma update_status_result:
  "update_status rid s w = (r, w') \<Longrightarrow>
     (r = Inl (StorageError UpdateRegistration) \<and> same_tables w w')
     \<or> (r = Inr () \<and> registrations w'
           = map (\<lambda>x. if reg_id x = rid then x\<lparr>status := s\<rparr> else x) (registrations w))"
  by (auto simp: update_status_def same_tables_def split: prod.splits if_splits
      dest!: request_cases)

lemma updateRegistrationStatus_ledger:
  assumes "updateRegistrationStatus p rid ns page w = (page', w')"
  shows "registrations w' = registrations w
         \<or> registrations w'
             = map (\<lambda>x. if reg_id x = rid then x\<lparr>status := new_status ns\<rparr> else x)
                 (registrations w)"
proof -
  obtain r w1 where u: "update_status rid (new_status ns) w = (r, w1)"
    by (cases "update_status rid (new_status ns) w")
  from update_status_result [OF u] show ?thesis
  proof
    assume "r = Inl (StorageError UpdateRegistration) \<and> same_tables w w1"
    then show ?thesis using assms u
      by (auto simp: updateRegistrationStatus_def same_tables_def)
  next
    assume a: "r = Inr () \<and> registrations w1
           = map (\<lambda>x. if reg_id x = rid then x\<lparr>status := new_status ns\<rparr> else x)
               (registrations w)"
    let ?w2 = "insert_activity_log
                      \<lparr> log_user_id = profile_id p,
                        log_action = ''registration_status_updated'',
                        log_registration = Some rid,
                        log_students = [] \<rparr> w1"
    have "fetchRegistrations p
            (page\<lparr>page_toasts := page_toasts page @ [StatusUpdated (new_status ns)]\<rparr>) ?w2
          = (page', w')"
      using assms u a by (simp add: updateRegistrationStatus_def Let_def)
    then have "same_tables ?w2 w'" by (rule fetchRegistrations_same)
    then have "registrations w' = registrations w1" by (simp add: same_tables_def)
    then show ?thesis using a by simp
  qed
qed

lemma deleteRegistration_ledger:
  assumes "deleteRegistration p c rid page w = (page', w')"
  shows "registrations w' = registrations w
         \<or> registrations w' = filter (\<lambda>r. reg_id r \<noteq> rid) (registrations w)"
proof (cases c)
  case False
  then show ?thesis using assms by (simp add: deleteRegistration_def)
next
  case True
  obtain r w1 where d: "delete_registration rid w = (r, w1)"
    by (cases "delete_registration rid w")
  show ?thesis
  proof (cases r)
    case (Inl e)
    then show ?thesis using assms d True delete_registration_Inl [of rid w e w1]
      by (auto simp: deleteRegistration_def same_tables_def)
  next
    case (Inr u)
    have 1: "registrations w1 = filter (\<lambda>r. reg_id r \<noteq> rid) (registrations w)"
      using delete_registration_result [of rid w u] d Inr by simp
    have "fetchRegistrations p
            (page\<lparr>page_toasts := page_toasts page @ [RegistrationRemoved]\<rparr>) w1 = (page', w')"
      using assms d True Inr by (simp add: deleteRegistration_def)
    then have "same_tables w1 w'" by (rule fetchRegistrations_same)
    then show ?thesis using 1 by (simp add: same_tables_def)
  qed
qed

lemma handleSubmit_ledger:
  assumes "handleSubmit p sp fs w = (fs', w')"
  shows "registrations w' = registrations w
         \<or> (\<exists>a. registrations w' = registrations w
                    @ stamp (next_id w) (clock w)
                        (batch_rows p sp (if a then Approved else Pending) (selectedStudents fs))
               \<and> insert_accepted
                    (batch_rows p sp (if a then Approved else Pending) (selectedStudents fs)) w)"
proof (cases "length (selectedStudents fs) = 0")
  case True
  then show ?thesis using assms by (auto simp: handleSubmit_def)
next
  case False
  obtain r w1 where g: "getStudentRegistrationInfo (selectedStudents fs) (sp_type sp) w = (r, w1)"
    by (cases "getStudentRegistrationInfo (selectedStudents fs) (sp_type sp) w")
  have st: "same_tables w w1" using g by (rule getStudentRegistrationInfo_same)
  show ?thesis
  proof (cases r)
    case (Inl e)
    then show ?thesis using assms g False st
      by (auto simp: handleSubmit_def same_tables_def)
  next
    case (Inr infos)
    show ?thesis
    proof (cases "length (filter (\<lambda>s. currentCount s \<ge> limit s) infos) > 0")
      case True
      then show ?thesis using assms g False st Inr
        by (auto simp: handleSubmit_def Let_def same_tables_def)
    next
      case nolimit: False
      have pr: "performRegistration p sp fs w1 = (fs', w')"
        using assms g False Inr nolimit by (simp add: handleSubmit_def Let_def)
      have e: "registrations w1 = registrations w" "next_id w1 = next_id w" "clock w1 = clock w"
        using st by (simp_all add: same_tables_def)
      from performRegistration_result [OF pr]
      show ?thesis
        unfolding e insert_accepted_same_tables [OF st] by blast
    qed
  qed
qed

section \<open>Uniqueness of registrations\<close>

lemma distinct_map_filter_length:
  "distinct (map f xs) \<Longrightarrow> length (filter (\<lambda>x. f x = k) xs) \<le> 1"
proof (induction xs)
  case Nil
  then show ?case by simp
next
  case (Cons a xs)
  show ?case
  proof (cases "f a = k")
    case True
    then have "k \<notin> f ` set xs" using Cons.prems by simp
    then have "filter (\<lambda>x. f x = k) xs = []"
      by (simp add: filter_empty_conv image_iff) blast
    then show ?thesis using True by simp
  next
    case False
    then show ?thesis using Cons by simp
  qed
qed

lemma ledger_keys_append_accepted:
  assumes "distinct (ledger_keys w)" and "insert_accepted rows w"
    and "registrations w' = registrations w @ stamp n c rows"
  shows "distinct (ledger_keys w')"
proof -
  have k: "ledger_keys w' = ledger_keys w @ map (\<lambda>x. (ins_student_id x, ins_sport_id x)) rows"
    using assms(3) by (simp add: ledger_keys_def stamp_keys)
  show ?thesis unfolding k using assms(1,2)
    by (auto simp: insert_accepted_def)
qed

lemma ledger_keys_status_update:
  "registrations w' = map (\<lambda>x. if reg_id x = rid then x\<lparr>status := s\<rparr> else x) (registrations w)
   \<Longrightarrow> ledger_keys w' = ledger_keys w"
  by (simp add: ledger_keys_def comp_def if_distrib cong: if_cong)

lemma ledger_keys_removal:
  "registrations w' = filter P (registrations w) \<Longrightarrow> distinct (ledger_keys w)
   \<Longrightarrow> distinct (ledger_keys w')"
  by (simp add: ledger_keys_def distinct_map_filter)

lemma reachable_distinct: "reachable w \<Longrightarrow> distinct (ledger_keys w)"
proof (induction rule: reachable.induct)
  case (empty_ledger w)
  then show ?case by (simp add: ledger_keys_def)
next
  case (submitted w p sp fs fs' w')
  from handleSubmit_ledger [OF submitted.hyps(2)]
  consider "registrations w' = registrations w"
    | a where "registrations w' = registrations w
                    @ stamp (next_id w) (clock w)
                        (batch_rows p sp (if a then Approved else Pending) (selectedStudents fs))"
        "insert_accepted
           (batch_rows p sp (if a then Approved else Pending) (selectedStudents fs)) w"
    by blast
  then show ?case
  proof cases
    case 1
    then show ?thesis using submitted.IH by (simp add: ledger_keys_def)
  next
    case 2
    then show ?thesis using submitted.IH ledger_keys_append_accepted by blast
  qed
next
  case (confirmed w p sp fs fs' w')
  from performRegistration_result [OF confirmed.hyps(2) [unfolded handleWarningConfirm_def]]
  consider "registrations w' = registrations w"
    | a where "registrations w' = registrations w
                    @ stamp (next_id w) (clock w)
                        (batch_rows p sp (if a then Approved else Pending)
                           (selectedStudents (fs\<lparr>showWarningDialog := False\<rparr>)))"
        "insert_accepted
           (batch_rows p sp (if a then Approved else Pending)
              (selectedStudents (fs\<lparr>showWarningDialog := False\<rparr>))) w"
    by blast
  then show ?case
  proof cases
    case 1
    then show ?thesis using confirmed.IH by (simp add: ledger_keys_def)
  next
    case 2
    then show ?thesis using confirmed.IH ledger_keys_append_accepted by blast
  qed
next
  case (status_updated w p rid ns page page' w')
  from updateRegistrationStatus_ledger [OF status_updated.hyps(2)]
  have "ledger_keys w' = ledger_keys w"
  proof
    assume "registrations w' = registrations w"
    then show ?thesis by (simp add: ledger_keys_def)
  next
    assume "registrations w'
             = map (\<lambda>x. if reg_id x = rid then x\<lparr>status := new_status ns\<rparr> else x)
                 (registrations w)"
    then show ?thesis by (rule ledger_keys_status_update)
  qed
  then show ?case using status_updated.IH by simp
next
  case (removed w p c rid page page' w')
  from deleteRegistration_ledger [OF removed.hyps(2)] show ?case
  proof
    assume "registrations w' = registrations w"
    then show ?thesis using removed.IH by (simp add: ledger_keys_def)
  next
    assume "registrations w' = filter (\<lambda>r. reg_id r \<noteq> rid) (registrations w)"
    then show ?thesis using removed.IH by (rule ledger_keys_removal)
  qed
next
  case (elsewhere w w')
  then show ?case by (simp add: ledger_keys_def)
qed


lemma insert_conflict_not_accepted:
  assumes "(sid, sp_id sp) \<in> set (ledger_keys w)" and "sid \<in> set ids"
  shows "\<not> insert_accepted (batch_rows p sp s ids) w"
  using assms by (auto simp: insert_accepted_batch_rows)

lemma insert_registrations_conflict:
  assumes "\<not> insert_accepted rows w"
  shows "\<exists>e. fst (insert_registrations rows w) = Inl e"
proof (cases "insert_registrations rows w")
  case (Pair r w')
  show ?thesis
  proof (cases r)
    case (Inl e)
    then show ?thesis using Pair by simp
  next
    case (Inr u)
    then show ?thesis using insert_registrations_Inr(5) [of rows w u w'] Pair assms by simp
  qed
qed

lemma insert_registrations_unique_violation:
  assumes "\<exists>x \<in> set rows. (ins_student_id x, ins_sport_id x) \<in> set (ledger_keys w)"
    and "\<not> next_request_fails w"
  shows "fst (insert_registrations rows w) = Inl UniqueViolation"
proof -
  obtain b w1 where q: "request InsertRegistrations w = (b, w1)"
    by (cases "request InsertRegistrations w")
  note R = request_cases [OF q]
  have k: "(\<lambda>r. (student_id r, sport_id r)) ` set (registrations w1) = set (ledger_keys w)"
    using R by (simp add: ledger_keys_def same_tables_def)
  have b: "\<not> b" using R assms(2) by simp
  show ?thesis using q b assms(1)
    by (simp add: insert_registrations_def Let_def k)
qed

lemma fetchExistingRegistrations_result:
  assumes "fst (fetchExistingRegistrations sp fs w) = Inr fs'"
  shows "existingRegistrations fs'
           = map (\<lambda>r. \<lparr> er_student_id = student_id r, er_sport_id = sport_id r,
                        er_status = status r \<rparr>)
               (filter (\<lambda>r. sport_id r = sp_id sp) (registrations w))"
  using assms
  by (auto simp: fetchExistingRegistrations_def same_tables_def split: prod.splits if_splits
      dest!: request_cases)

text \<open>
  C4. In every reachable state the ledger holds at most one registration for each pair
  of student and sport. Registering a student who already holds a registration for the
  sport fails: the batch is rejected by the unique index (a unique violation, unless the
  request fails earlier for an outside reason), the form reports the failure and the
  ledger, with the existing registration, is left as it was. The form reads the existing
  registrations of the sport, and does not offer an already registered student.
\<close>

theorem one_registration_per_student_and_sport:
  "(reachable w \<longrightarrow>
      distinct (ledger_keys w)
      \<and> (\<forall>sid spid. length (filter (\<lambda>r. (student_id r, sport_id r) = (sid, spid))
                                 (registrations w)) \<le> 1))
   \<and> ((sid, sp_id sp) \<in> set (ledger_keys w) \<and> sid \<in> set (selectedStudents fs) \<longrightarrow>
        registrations (snd (performRegistration p sp fs w)) = registrations w
        \<and> toasts (fst (performRegistration p sp fs w)) = toasts fs @ [RegistrationFailed]
        \<and> (\<exists>e. fst (insert_registrations (batch_rows p sp s (selectedStudents fs)) w) = Inl e
                \<and> (\<not> next_request_fails w \<longrightarrow> e = UniqueViolation)))
   \<and> (fst (fetchExistingRegistrations sp fs w) = Inr fs' \<longrightarrow>
        (isStudentAlreadyRegistered fs' sid \<longleftrightarrow> (sid, sp_id sp) \<in> set (ledger_keys w))
        \<and> (isStudentAlreadyRegistered fs' sid \<longrightarrow> \<not> canStudentRegister sp fs' sid))"
proof (intro conjI impI allI)
  assume "reachable w"
  then show "distinct (ledger_keys w)" by (rule reachable_distinct)
next
  fix a b
  assume "reachable w"
  then have "distinct (map (\<lambda>r. (student_id r, sport_id r)) (registrations w))"
    using reachable_distinct by (simp add: ledger_keys_def)
  then show "length (filter (\<lambda>r. (student_id r, sport_id r) = (a, b)) (registrations w)) \<le> 1"
    by (rule distinct_map_filter_length)
next
  assume a: "(sid, sp_id sp) \<in> set (ledger_keys w) \<and> sid \<in> set (selectedStudents fs)"
  then have na: "\<And>st. \<not> insert_accepted (batch_rows p sp st (selectedStudents fs)) w"
    using insert_conflict_not_accepted by blast
  have pr: "performRegistration p sp fs w
              = (fst (performRegistration p sp fs w), snd (performRegistration p sp fs w))"
    by simp
  from performRegistration_result [OF pr] na
  show "registrations (snd (performRegistration p sp fs w)) = registrations w"
    and "toasts (fst (performRegistration p sp fs w)) = toasts fs @ [RegistrationFailed]"
    by blast+
  from insert_registrations_conflict [OF na]
  obtain e where e: "fst (insert_registrations (batch_rows p sp s (selectedStudents fs)) w) = Inl e"
    by blast
  have "\<exists>x \<in> set (batch_rows p sp s (selectedStudents fs)).
          (ins_student_id x, ins_sport_id x) \<in> set (ledger_keys w)"
    using a by (auto simp: batch_rows_def)
  then have "\<not> next_request_fails w \<longrightarrow> e = UniqueViolation"
    using insert_registrations_unique_violation e by fastforce
  then show "\<exists>e. fst (insert_registrations (batch_rows p sp s (selectedStudents fs)) w) = Inl e
                \<and> (\<not> next_request_fails w \<longrightarrow> e = UniqueViolation)"
    using e by blast
next
  assume a: "fst (fetchExistingRegistrations sp fs w) = Inr fs'"
  show "isStudentAlreadyRegistered fs' sid \<longleftrightarrow> (sid, sp_id sp) \<in> set (ledger_keys w)"
    unfolding isStudentAlreadyRegistered_def fetchExistingRegistrations_result [OF a]
      ledger_keys_def
    by auto
next
  assume "fst (fetchExistingRegistrations sp fs w) = Inr fs'"
    and "isStudentAlreadyRegistered fs' sid"
  then show "\<not> canStudentRegister sp fs' sid" by (simp add: canStudentRegister_def)
qed

text \<open>
  C4, witness: after Alice and Carol have been registered for chess, registering them
  again is rejected with a unique violation and the ledger keeps its two registrations.
\<close>

theorem one_registration_witness:
  "reachable registered_world
   \<and> ledger_keys registered_world = [(1, 10), (3, 10)]
   \<and> selectedStudents form0 = [1, 3]
   \<and> registrations (snd (performRegistration coordinator1 chess form0 registered_world))
       = registrations registered_world
   \<and> fst (insert_registrations (batch_rows coordinator1 chess Pending [1, 3]) registered_world)
       = Inl UniqueViolation
   \<and> isStudentAlreadyRegistered
        (form0\<lparr>existingRegistrations :=
                  [\<lparr> er_student_id = 1, er_sport_id = 10, er_status = Approved \<rparr>,
                   \<lparr> er_student_id = 3, er_sport_id = 10, er_status = Approved \<rparr>]\<rparr>) 1"
proof -
  have r0: "reachable auto_world"
    by (rule reachable.empty_ledger) (simp add: auto_world_def bare_world_def)
  have r: "reachable registered_world"
    unfolding registered_world_def
    by (rule reachable.confirmed [OF r0, of coordinator1 chess form0
               "fst (handleWarningConfirm coordinator1 chess form0 auto_world)"]) simp
  have k: "ledger_keys registered_world = [(1, 10), (3, 10)]" by code_simp
  have c: "(1, sp_id chess) \<in> set (ledger_keys registered_world)
           \<and> 1 \<in> set (selectedStudents form0)"
    unfolding k by (simp add: chess_def form0_def)
  have s: "selectedStudents form0 = [1, 3]" by (simp add: form0_def)
  have n: "\<not> next_request_fails registered_world" by code_simp
  have regs: "registrations registered_world
                = [\<lparr> reg_id = 100, student_id = 1, sport_id = 10, registered_by = 7,
                      status = Approved, reg_created_at = 5 \<rparr>,
                   \<lparr> reg_id = 101, student_id = 3, sport_id = 10, registered_by = 7,
                      status = Approved, reg_created_at = 5 \<rparr>]"
    by code_simp
  have fl: "faults registered_world = []" by code_simp
  have f: "fst (fetchExistingRegistrations chess form0 registered_world)
             = Inr (form0\<lparr>existingRegistrations :=
                  [\<lparr> er_student_id = 1, er_sport_id = 10, er_status = Approved \<rparr>,
                   \<lparr> er_student_id = 3, er_sport_id = 10, er_status = Approved \<rparr>]\<rparr>)"
    by (simp add: fetchExistingRegistrations_def request_def regs fl chess_def)
  note T = one_registration_per_student_and_sport
             [where w = registered_world and sid = 1 and sp = chess and fs = form0
                and p = coordinator1 and s = Pending
                and fs' = "form0\<lparr>existingRegistrations :=
                  [\<lparr> er_student_id = 1, er_sport_id = 10, er_status = Approved \<rparr>,
                   \<lparr> er_student_id = 3, er_sport_id = 10, er_status = Approved \<rparr>]\<rparr>"]
  from T r c n f s k show ?thesis by auto
qed

section \<open>Submitting and confirming a selection\<close>

lemma request_no_faults:
  "request op w = (b, w') \<Longrightarrow> faults w = [] \<Longrightarrow> faults w' = [] \<and> \<not> b"
  by (auto simp: request_def)

lemma fetchRegistrationLimits_no_faults:
  "fetchRegistrationLimits w = (r, w') \<Longrightarrow> faults w = [] \<Longrightarrow> faults w' = []"
  by (auto simp: fetchRegistrationLimits_def Let_def split: prod.splits if_splits
      dest!: request_no_faults)

lemma select_students_in_no_faults:
  "select_students_in ids w = (r, w') \<Longrightarrow> faults w = [] \<Longrightarrow> faults w' = []"
  by (auto simp: select_students_in_def split: prod.splits if_splits dest!: request_no_faults)

lemma select_counted_registrations_no_faults:
  "select_counted_registrations ids w = (r, w') \<Longrightarrow> faults w = [] \<Longrightarrow> faults w' = []"
  by (auto simp: select_counted_registrations_def split: prod.splits if_splits
      dest!: request_no_faults)

lemma getStudentRegistrationInfo_no_faults:
  assumes "faults w = []"
  shows "faults (snd (getStudentRegistrationInfo ids t w)) = []"
proof (cases "length ids = 0")
  case True
  then show ?thesis using assms by (simp add: getStudentRegistrationInfo_def)
next
  case False
  obtain r1 w1 where 1: "fetchRegistrationLimits w = (r1, w1)"
    by (cases "fetchRegistrationLimits w")
  have f1: "faults w1 = []" using 1 assms by (rule fetchRegistrationLimits_no_faults)
  show ?thesis
  proof (cases r1)
    case (Inl e)
    then show ?thesis using 1 f1 False by (simp add: getStudentRegistrationInfo_def)
  next
    case lim: (Inr limits)
    obtain r2 w2 where 2: "select_students_in ids w1 = (r2, w2)"
      by (cases "select_students_in ids w1")
    have f2: "faults w2 = []" using 2 f1 by (rule select_students_in_no_faults)
    show ?thesis
    proof (cases r2)
      case (Inl e)
      then show ?thesis using 1 2 f2 False lim
        by (simp add: getStudentRegistrationInfo_def Let_def)
    next
      case studs: (Inr studs)
      obtain r3 w3 where 3: "select_counted_registrations ids w2 = (r3, w3)"
        by (cases "select_counted_registrations ids w2")
      have f3: "faults w3 = []" using 3 f2 by (rule select_counted_registrations_no_faults)
      show ?thesis using 1 2 3 f3 False lim studs
        by (cases r3) (simp_all add: getStudentRegistrationInfo_def Let_def)
    qed
  qed
qed

lemma insert_accepted_status:
  "insert_accepted (batch_rows p sp s ids) w = insert_accepted (batch_rows p sp s' ids) w"
  by (simp add: insert_accepted_batch_rows)

lemma performRegistration_succeeds:
  assumes "faults w = []" and "insert_accepted (batch_rows p sp Pending (selectedStudents fs)) w"
  shows "\<exists>a. registrations (snd (performRegistration p sp fs w))
               = registrations w @ stamp (next_id w) (clock w)
                   (batch_rows p sp (if a then Approved else Pending) (selectedStudents fs))"
proof -
  obtain r w1 where s: "select_auto_approve w = (r, w1)"
    by (cases "select_auto_approve w")
  note S = select_auto_approve_same [OF s]
  define a where "a = (case r of None \<Rightarrow> False
               | Some v \<Rightarrow> (case sv_enabled v of None \<Rightarrow> False | Some b \<Rightarrow> b))"
  define rows where "rows = batch_rows p sp (if a then Approved else Pending) (selectedStudents fs)"
  have f1: "\<not> next_request_fails w1" using S assms(1) by (simp add: next_request_fails_def)
  have "insert_accepted rows w"
    unfolding rows_def using assms(2) insert_accepted_status by blast
  then have "insert_accepted rows w1" using S insert_accepted_same_tables by blast
  from insert_registrations_accepted [OF this f1]
  obtain w2 where i: "insert_registrations rows w1 = (Inr (), w2)" by blast
  note I = insert_registrations_Inr [OF i]
  have "snd (performRegistration p sp fs w)
          = insert_activity_log
                 \<lparr> log_user_id = profile_id p, log_action = ''students_registered'',
                   log_registration = None, log_students = selectedStudents fs \<rparr> w2"
    using i by (simp add: performRegistration_unfold [OF s] a_def rows_def Let_def)
  then have "registrations (snd (performRegistration p sp fs w))
               = registrations w @ stamp (next_id w) (clock w) rows"
    using I(1) S by (simp add: same_tables_def)
  then show ?thesis unfolding rows_def by blast
qed

lemma exceeding_ids:
  assumes "fst (getStudentRegistrationInfo ids t w) = Inr infos" and "ids \<noteq> []"
  shows "info_id ` set (filter (\<lambda>i. limit i \<le> currentCount i) infos)
           = {sid \<in> set ids \<inter> st_id ` set (students w).
                resolved_limit w t \<le> int (quota_count w sid t)}"
    (is "?L = ?R")
proof (rule set_eqI, rule iffI)
  fix sid
  assume "sid \<in> ?L"
  then obtain i where i: "i \<in> set infos" "limit i \<le> currentCount i" "sid = info_id i"
    by auto
  note M = getStudentRegistrationInfo_fst [OF assms(1) i(1)]
  have "sid \<in> set ids" "sid \<in> st_id ` set (students w)"
    using M(1,2) i(3) by simp_all
  moreover have "resolved_limit w t \<le> int (quota_count w sid t)"
    using M(3,4) i(2,3) by simp
  ultimately show "sid \<in> ?R" by simp
next
  fix sid
  assume a: "sid \<in> ?R"
  then obtain st where st: "st \<in> set (students w)" "st_id st = sid" "sid \<in> set ids"
    by auto
  from a have q: "resolved_limit w t \<le> int (quota_count w sid t)" by simp
  have e: "getStudentRegistrationInfo ids t w
             = (Inr infos, snd (getStudentRegistrationInfo ids t w))"
    using assms(1) by (simp add: prod_eq_iff)
  define i where "i = student_info (counted_rows ids w) t (resolved_limit w t) st"
  have "st \<in> set (filter (\<lambda>s. st_id s \<in> set ids) (students w))" using st by simp
  then have "i \<in> student_info (counted_rows ids w) t (resolved_limit w t)
                    ` set (filter (\<lambda>s. st_id s \<in> set ids) (students w))"
    unfolding i_def by (rule imageI)
  then have m: "i \<in> set infos"
    unfolding getStudentRegistrationInfo_Inr(2) [OF e assms(2)] set_map .
  have id: "info_id i = sid" unfolding i_def using st(2) by (simp add: student_info_def Let_def)
  note M = getStudentRegistrationInfo_fst [OF assms(1) m]
  have "limit i \<le> currentCount i" unfolding M(3,4) id by (rule q)
  then have "i \<in> set (filter (\<lambda>i. limit i \<le> currentCount i) infos)" using m by simp
  then have "info_id i \<in> ?L" by (rule imageI)
  then show "sid \<in> ?L" unfolding id .
qed

lemma handleSubmit_warning:
  assumes "selectedStudents fs \<noteq> []"
    and "getStudentRegistrationInfo (selectedStudents fs) (sp_type sp) w = (Inr infos, w1)"
    and "\<exists>i \<in> set infos. limit i \<le> currentCount i"
  shows "handleSubmit p sp fs w
           = (fs\<lparr>studentsExceedingLimits := filter (\<lambda>i. limit i \<le> currentCount i) infos,
                  showWarningDialog := True\<rparr>, w1)"
proof -
  have "filter (\<lambda>i. limit i \<le> currentCount i) infos \<noteq> []"
    using assms(3) by (simp add: filter_empty_conv)
  then show ?thesis using assms(1)
    by (simp add: handleSubmit_def assms(2) Let_def)
qed

text \<open>
  C3 (as amended). When a non-empty selection is submitted, the quota reads succeed and
  at least one selected student is at or over the limit of the sport's category, the
  form opens the warning with exactly the selected students that are at or over the limit
  and writes nothing to the ledger. Confirming the warning then creates one registration
  for every selected student provided the batch is accepted: the selection has no
  repetition, no selected student is already registered for the sport, students and sport
  exist and no request fails. If a selected student is already registered for the sport
  the confirmed batch is rejected as a whole and no registration is created.
\<close>

theorem quota_warning_then_override:
  "(selectedStudents fs \<noteq> []
      \<and> fst (getStudentRegistrationInfo (selectedStudents fs) (sp_type sp) w) = Inr infos
      \<and> (\<exists>i \<in> set infos. limit i \<le> currentCount i) \<longrightarrow>
      showWarningDialog (fst (handleSubmit p sp fs w))
      \<and> studentsExceedingLimits (fst (handleSubmit p sp fs w))
          = filter (\<lambda>i. limit i \<le> currentCount i) infos
      \<and> info_id ` set (studentsExceedingLimits (fst (handleSubmit p sp fs w)))
          = {sid \<in> set (selectedStudents fs) \<inter> st_id ` set (students w).
               resolved_limit w (sp_type sp) \<le> int (quota_count w sid (sp_type sp))}
      \<and> selectedStudents (fst (handleSubmit p sp fs w)) = selectedStudents fs
      \<and> registrations (snd (handleSubmit p sp fs w)) = registrations w
      \<and> (faults w = [] \<and> distinct (selectedStudents fs)
           \<and> (\<forall>sid \<in> set (selectedStudents fs).
                 (sid, sp_id sp) \<notin> set (ledger_keys w) \<and> sid \<in> st_id ` set (students w)
                 \<and> sp_id sp \<in> sp_id ` set (sports w)) \<longrightarrow>
           (\<exists>new. registrations
                     (snd (handleWarningConfirm p sp (fst (handleSubmit p sp fs w))
                             (snd (handleSubmit p sp fs w))))
                   = registrations w @ new
                 \<and> map student_id new = selectedStudents fs
                 \<and> (\<forall>r \<in> set new. sport_id r = sp_id sp)))
      \<and> ((\<exists>sid \<in> set (selectedStudents fs). (sid, sp_id sp) \<in> set (ledger_keys w)) \<longrightarrow>
           registrations
             (snd (handleWarningConfirm p sp (fst (handleSubmit p sp fs w))
                     (snd (handleSubmit p sp fs w))))
           = registrations w))"
proof (intro impI)
  assume a: "selectedStudents fs \<noteq> []
      \<and> fst (getStudentRegistrationInfo (selectedStudents fs) (sp_type sp) w) = Inr infos
      \<and> (\<exists>i \<in> set infos. limit i \<le> currentCount i)"
  obtain w1 where g: "getStudentRegistrationInfo (selectedStudents fs) (sp_type sp) w
                        = (Inr infos, w1)"
    using a by (cases "getStudentRegistrationInfo (selectedStudents fs) (sp_type sp) w") simp
  define fs1 where "fs1 = fs\<lparr>studentsExceedingLimits := filter (\<lambda>i. limit i \<le> currentCount i) infos,
                  showWarningDialog := True\<rparr>"
  have h: "handleSubmit p sp fs w = (fs1, w1)"
    unfolding fs1_def using a g by (intro handleSubmit_warning) simp_all
  have st: "same_tables w w1"
    using g by (rule getStudentRegistrationInfo_same)
  have sel: "selectedStudents (fs1\<lparr>showWarningDialog := False\<rparr>) = selectedStudents fs"
    by (simp add: fs1_def)
  have c1: "showWarningDialog fs1" by (simp add: fs1_def)
  have c2: "studentsExceedingLimits fs1 = filter (\<lambda>i. limit i \<le> currentCount i) infos"
    by (simp add: fs1_def)
  have c3: "info_id ` set (studentsExceedingLimits fs1)
          = {sid \<in> set (selectedStudents fs) \<inter> st_id ` set (students w).
               resolved_limit w (sp_type sp) \<le> int (quota_count w sid (sp_type sp))}"
    unfolding c2 using a by (intro exceeding_ids) simp_all
  have c4: "selectedStudents fs1 = selectedStudents fs" by (simp add: fs1_def)
  have c5: "registrations w1 = registrations w" using st by (simp add: same_tables_def)
  have c6: "faults w = [] \<and> distinct (selectedStudents fs)
           \<and> (\<forall>sid \<in> set (selectedStudents fs).
                 (sid, sp_id sp) \<notin> set (ledger_keys w) \<and> sid \<in> st_id ` set (students w)
                 \<and> sp_id sp \<in> sp_id ` set (sports w)) \<longrightarrow>
           (\<exists>new. registrations (snd (handleWarningConfirm p sp fs1 w1))
                   = registrations w @ new
                 \<and> map student_id new = selectedStudents fs
                 \<and> (\<forall>r \<in> set new. sport_id r = sp_id sp))"
  proof
    assume b: "faults w = [] \<and> distinct (selectedStudents fs)
           \<and> (\<forall>sid \<in> set (selectedStudents fs).
                 (sid, sp_id sp) \<notin> set (ledger_keys w) \<and> sid \<in> st_id ` set (students w)
                 \<and> sp_id sp \<in> sp_id ` set (sports w))"
    have f: "faults w1 = []"
      using getStudentRegistrationInfo_no_faults [of w "selectedStudents fs" "sp_type sp"] b g
      by simp
    have "insert_accepted (batch_rows p sp Pending (selectedStudents fs)) w"
      using b by (simp add: insert_accepted_batch_rows)
    then have acc: "insert_accepted (batch_rows p sp Pending
                      (selectedStudents (fs1\<lparr>showWarningDialog := False\<rparr>))) w1"
      unfolding sel using insert_accepted_same_tables [OF st] by simp
    from performRegistration_succeeds [OF f acc, of] obtain x where
      "registrations (snd (performRegistration p sp (fs1\<lparr>showWarningDialog := False\<rparr>) w1))
         = registrations w1 @ stamp (next_id w1) (clock w1)
             (batch_rows p sp (if x then Approved else Pending)
                (selectedStudents (fs1\<lparr>showWarningDialog := False\<rparr>)))"
      by blast
    then have r: "registrations (snd (handleWarningConfirm p sp fs1 w1))
         = registrations w @ stamp (next_id w1) (clock w1)
             (batch_rows p sp (if x then Approved else Pending) (selectedStudents fs))"
      unfolding handleWarningConfirm_def sel c5 .
    show "\<exists>new. registrations (snd (handleWarningConfirm p sp fs1 w1))
                   = registrations w @ new
                 \<and> map student_id new = selectedStudents fs
                 \<and> (\<forall>r \<in> set new. sport_id r = sp_id sp)"
      using r stamp_batch_rows_students stamp_batch_rows_member(2) by blast
  qed
  have c7: "(\<exists>sid \<in> set (selectedStudents fs). (sid, sp_id sp) \<in> set (ledger_keys w)) \<longrightarrow>
           registrations (snd (handleWarningConfirm p sp fs1 w1)) = registrations w"
  proof
    assume "\<exists>sid \<in> set (selectedStudents fs). (sid, sp_id sp) \<in> set (ledger_keys w)"
    then obtain sid where s: "sid \<in> set (selectedStudents fs)"
      "(sid, sp_id sp) \<in> set (ledger_keys w)" by blast
    have k: "ledger_keys w1 = ledger_keys w" using c5 by (simp add: ledger_keys_def)
    have na: "\<And>x. \<not> insert_accepted (batch_rows p sp x
                 (selectedStudents (fs1\<lparr>showWarningDialog := False\<rparr>))) w1"
      unfolding sel using s k insert_conflict_not_accepted by metis
    have pr: "performRegistration p sp (fs1\<lparr>showWarningDialog := False\<rparr>) w1
                = (fst (performRegistration p sp (fs1\<lparr>showWarningDialog := False\<rparr>) w1),
                   snd (performRegistration p sp (fs1\<lparr>showWarningDialog := False\<rparr>) w1))"
      by simp
    from performRegistration_result [OF pr] na
    have "registrations (snd (performRegistration p sp (fs1\<lparr>showWarningDialog := False\<rparr>) w1))
            = registrations w1" by blast
    then show "registrations (snd (handleWarningConfirm p sp fs1 w1)) = registrations w"
      unfolding handleWarningConfirm_def c5 .
  qed
  show "showWarningDialog (fst (handleSubmit p sp fs w))
      \<and> studentsExceedingLimits (fst (handleSubmit p sp fs w))
          = filter (\<lambda>i. limit i \<le> currentCount i) infos
      \<and> info_id ` set (studentsExceedingLimits (fst (handleSubmit p sp fs w)))
          = {sid \<in> set (selectedStudents fs) \<inter> st_id ` set (students w).
               resolved_limit w (sp_type sp) \<le> int (quota_count w sid (sp_type sp))}
      \<and> selectedStudents (fst (handleSubmit p sp fs w)) = selectedStudents fs
      \<and> registrations (snd (handleSubmit p sp fs w)) = registrations w
      \<and> (faults w = [] \<and> distinct (selectedStudents fs)
           \<and> (\<forall>sid \<in> set (selectedStudents fs).
                 (sid, sp_id sp) \<notin> set (ledger_keys w) \<and> sid \<in> st_id ` set (students w)
                 \<and> sp_id sp \<in> sp_id ` set (sports w)) \<longrightarrow>
           (\<exists>new. registrations
                     (snd (handleWarningConfirm p sp (fst (handleSubmit p sp fs w))
                             (snd (handleSubmit p sp fs w))))
                   = registrations w @ new
                 \<and> map student_id new = selectedStudents fs
                 \<and> (\<forall>r \<in> set new. sport_id r = sp_id sp)))
      \<and> ((\<exists>sid \<in> set (selectedStudents fs). (sid, sp_id sp) \<in> set (ledger_keys w)) \<longrightarrow>
           registrations
             (snd (handleWarningConfirm p sp (fst (handleSubmit p sp fs w))
                     (snd (handleSubmit p sp fs w))))
           = registrations w)"
    unfolding h fst_conv snd_conv using c1 c2 c3 c4 c5 c6 c7 by (intro conjI)
qed

text \<open>
  C3, witness: Alice (at the game limit) and Carol are submitted for kabaddi; the warning
  names Alice only, nothing is written, and the confirmation registers both.
\<close>

theorem quota_warning_witness:
  "selectedStudents form0 = [1, 3]
   \<and> fst (getStudentRegistrationInfo [1, 3] Game busy_world)
       = Inr [info_of alice 2 2 [\<lparr> sport_name = ''Chess'', sport_type = Game \<rparr>,
                                 \<lparr> sport_name = ''Carrom'', sport_type = Game \<rparr>],
              info_of carol 0 2 []]
   \<and> showWarningDialog (fst (handleSubmit coordinator1 kabaddi form0 busy_world))
   \<and> map info_id (studentsExceedingLimits (fst (handleSubmit coordinator1 kabaddi form0 busy_world)))
       = [1]
   \<and> registrations (snd (handleSubmit coordinator1 kabaddi form0 busy_world))
       = registrations busy_world
   \<and> map student_id
         (registrations
            (snd (handleWarningConfirm coordinator1 kabaddi
                    (fst (handleSubmit coordinator1 kabaddi form0 busy_world))
                    (snd (handleSubmit coordinator1 kabaddi form0 busy_world)))))
       = map student_id (registrations busy_world) @ [1, 3]"
proof -
  let ?a = "info_of alice 2 2 [\<lparr> sport_name = ''Chess'', sport_type = Game \<rparr>,
                               \<lparr> sport_name = ''Carrom'', sport_type = Game \<rparr>]"
  let ?c = "info_of carol 0 2 []"
  have s: "selectedStudents form0 = [1, 3]" by (simp add: form0_def)
  have t: "sp_type kabaddi = Game" "sp_id kabaddi = 13" by (simp_all add: kabaddi_def)
  have g: "fst (getStudentRegistrationInfo [1, 3] Game busy_world) = Inr [?a, ?c]"
    by code_simp
  have x: "\<exists>i \<in> set [?a, ?c]. limit i \<le> currentCount i" by (simp add: info_of_def)
  have f: "filter (\<lambda>i. limit i \<le> currentCount i) [?a, ?c] = [?a]" by (simp add: info_of_def)
  have i: "info_id ?a = 1" by (simp add: info_of_def alice_def)
  have fl: "faults busy_world = []" by (simp add: busy_world_def bare_world_def)
  have k: "ledger_keys busy_world = [(1, 10), (1, 11), (1, 12), (2, 10)]" by code_simp
  have st: "st_id ` set (students busy_world) = {1, 2, 3}"
    by (simp add: busy_world_def bare_world_def alice_def bob_def carol_def)
  have sp: "sp_id ` set (sports busy_world) = {10, 11, 12, 13}"
    by (simp add: busy_world_def bare_world_def chess_def carrom_def sprint_def kabaddi_def)
  note T = quota_warning_then_override
             [where fs = form0 and sp = kabaddi and w = busy_world and infos = "[?a, ?c]"
                and p = coordinator1, unfolded s t]
  have h: "[1, 3] \<noteq> ([] :: nat list)
      \<and> fst (getStudentRegistrationInfo [1, 3] Game busy_world) = Inr [?a, ?c]
      \<and> (\<exists>i \<in> set [?a, ?c]. limit i \<le> currentCount i)"
    using g x by simp
  have c: "faults busy_world = [] \<and> distinct [1, 3 :: nat]
           \<and> (\<forall>sid \<in> set [1, 3 :: nat].
                 (sid, 13) \<notin> set (ledger_keys busy_world)
                 \<and> sid \<in> st_id ` set (students busy_world)
                 \<and> (13 :: nat) \<in> sp_id ` set (sports busy_world))"
    unfolding k st sp using fl by simp
  from T [rule_format, OF h] have
    1: "showWarningDialog (fst (handleSubmit coordinator1 kabaddi form0 busy_world))"
    and 2: "studentsExceedingLimits (fst (handleSubmit coordinator1 kabaddi form0 busy_world))
              = filter (\<lambda>i. limit i \<le> currentCount i) [?a, ?c]"
    and 3: "registrations (snd (handleSubmit coordinator1 kabaddi form0 busy_world))
              = registrations busy_world"
    and 4: "faults busy_world = [] \<and> distinct [1, 3 :: nat]
           \<and> (\<forall>sid \<in> set [1, 3 :: nat].
                 (sid, 13) \<notin> set (ledger_keys busy_world)
                 \<and> sid \<in> st_id ` set (students busy_world)
                 \<and> (13 :: nat) \<in> sp_id ` set (sports busy_world)) \<longrightarrow>
           (\<exists>new. registrations
                     (snd (handleWarningConfirm coordinator1 kabaddi
                             (fst (handleSubmit coordinator1 kabaddi form0 busy_world))
                             (snd (handleSubmit coordinator1 kabaddi form0 busy_world))))
                   = registrations busy_world @ new
                 \<and> map student_id new = [1, 3]
                 \<and> (\<forall>r \<in> set new. sport_id r = 13))"
    by blast+
  from mp [OF 4 c] have
    "\<exists>new. registrations
          (snd (handleWarningConfirm coordinator1 kabaddi
                  (fst (handleSubmit coordinator1 kabaddi form0 busy_world))
                  (snd (handleSubmit coordinator1 kabaddi form0 busy_world))))
        = registrations busy_world @ new \<and> map student_id new = [1, 3]"
    by (elim exE conjE, intro exI conjI)
  then have n: "map student_id
         (registrations
            (snd (handleWarningConfirm coordinator1 kabaddi
                    (fst (handleSubmit coordinator1 kabaddi form0 busy_world))
                    (snd (handleSubmit coordinator1 kabaddi form0 busy_world)))))
       = map student_id (registrations busy_world) @ [1, 3]"
    by (elim exE conjE) simp
  note 5 = 2 [unfolded f]
  show ?thesis using s g 1 3 n by (simp add: 5 i)
qed

text \<open>
  C3, counterexample to the claim as stated (confirming the warning registers every
  selected student): Alice and Carol were selected in a form that showed both as
  eligible; meanwhile Alice has been registered for chess by another coordinator. The
  submission warns about Alice, and the confirmation is rejected by the unique index:
  nobody is registered, Carol included.
\<close>

theorem quota_warning_counterexample:
  "selectedStudents form0 = [1, 3]
   \<and> canStudentRegister chess form0 1 \<and> canStudentRegister chess form0 3
   \<and> showWarningDialog (fst (handleSubmit coordinator1 chess form0 stale_world))
   \<and> map info_id (studentsExceedingLimits (fst (handleSubmit coordinator1 chess form0 stale_world)))
       = [1]
   \<and> registrations (snd (handleSubmit coordinator1 chess form0 stale_world))
       = registrations stale_world
   \<and> toasts (fst (handleWarningConfirm coordinator1 chess
                     (fst (handleSubmit coordinator1 chess form0 stale_world))
                     (snd (handleSubmit coordinator1 chess form0 stale_world))))
       = [RegistrationFailed]
   \<and> registrations
         (snd (handleWarningConfirm coordinator1 chess
                 (fst (handleSubmit coordinator1 chess form0 stale_world))
                 (snd (handleSubmit coordinator1 chess form0 stale_world))))
       = registrations stale_world"
  by code_simp

section \<open>Status changes\<close>

lemma new_status_not_pending: "new_status ns \<noteq> Pending"
  by (cases ns) simp_all

lemma clickStatusButton_ledger:
  assumes "clickStatusButton p rid ns page w = (page', w')"
  shows "registrations w' = registrations w
         \<or> (role p = Admin \<and> statusButtonsShown p page rid
             \<and> registrations w'
                 = map (\<lambda>r. if reg_id r = rid then r\<lparr>status := new_status ns\<rparr> else r)
                     (registrations w))"
proof (cases "statusButtonsShown p page rid")
  case False
  then show ?thesis using assms by (simp add: clickStatusButton_def)
next
  case True
  then have a: "role p = Admin" by (auto simp: statusButtonsShown_def)
  have "updateRegistrationStatus p rid ns page w = (page', w')"
    using assms True by (simp add: clickStatusButton_def)
  from updateRegistrationStatus_ledger [OF this] show ?thesis using a True by blast
qed

lemma shown_in_sync_pending:
  assumes "statusButtonsShown p page rid" and "list_in_sync page w"
    and "r \<in> set (registrations w)" and "reg_id r = rid"
  shows "status r = Pending"
proof -
  from assms(1) obtain rv where rv: "rv \<in> set (page_registrations page)" "rv_id rv = rid"
    "rv_status rv = Pending"
    by (auto simp: statusButtonsShown_def)
  from assms(2) rv(1) assms(3) have "reg_id r = rv_id rv \<longrightarrow> status r = rv_status rv"
    unfolding list_in_sync_def by blast
  then show ?thesis using rv assms(4) by simp
qed

text \<open>
  C8 (as amended). A click on Approve or Reject changes the ledger only for the admin and
  only for a registration that the list on the page shows as pending; it sets the status
  of that registration to approved or rejected, never to pending, and leaves every other
  registration as it is. When the list on the page shows the stored statuses, every
  change is from pending to approved or from pending to rejected. The update does not
  look at the stored status. Removal only deletes registrations, and the form only adds
  registrations: no operation sets an existing registration back to pending.
\<close>

theorem status_updates_gated_by_listed_status:
  "(clickStatusButton p rid ns page w = (page', w') \<longrightarrow>
      (registrations w' = registrations w
       \<or> (role p = Admin \<and> statusButtonsShown p page rid
           \<and> registrations w'
               = map (\<lambda>r. if reg_id r = rid then r\<lparr>status := new_status ns\<rparr> else r)
                   (registrations w)))
      \<and> new_status ns \<noteq> Pending
      \<and> length (registrations w') = length (registrations w)
      \<and> (\<forall>j < length (registrations w).
            status (registrations w' ! j) \<noteq> status (registrations w ! j) \<longrightarrow>
              role p = Admin \<and> reg_id (registrations w ! j) = rid
              \<and> status (registrations w' ! j) = new_status ns
              \<and> (list_in_sync page w \<longrightarrow> status (registrations w ! j) = Pending)))
   \<and> (deleteRegistration p c rid page w = (page', w') \<longrightarrow>
        set (registrations w') \<subseteq> set (registrations w))
   \<and> (handleSubmit pf sp fs w = (fs', w') \<longrightarrow>
        (\<exists>new. registrations w' = registrations w @ new))
   \<and> (handleWarningConfirm pf sp fs w = (fs', w') \<longrightarrow>
        (\<exists>new. registrations w' = registrations w @ new))"
proof (intro conjI impI)
  assume a: "clickStatusButton p rid ns page w = (page', w')"
  note L = clickStatusButton_ledger [OF a]
  show "registrations w' = registrations w
       \<or> (role p = Admin \<and> statusButtonsShown p page rid
           \<and> registrations w'
               = map (\<lambda>r. if reg_id r = rid then r\<lparr>status := new_status ns\<rparr> else r)
                   (registrations w))"
    by (rule L)
  show "new_status ns \<noteq> Pending" by (rule new_status_not_pending)
  show len: "length (registrations w') = length (registrations w)"
    using L by auto
  show "\<forall>j < length (registrations w).
            status (registrations w' ! j) \<noteq> status (registrations w ! j) \<longrightarrow>
              role p = Admin \<and> reg_id (registrations w ! j) = rid
              \<and> status (registrations w' ! j) = new_status ns
              \<and> (list_in_sync page w \<longrightarrow> status (registrations w ! j) = Pending)"
  proof (intro allI impI)
    fix j
    assume j: "j < length (registrations w)"
      and d: "status (registrations w' ! j) \<noteq> status (registrations w ! j)"
    from L d have adm: "role p = Admin" and shown: "statusButtonsShown p page rid"
      and m: "registrations w'
               = map (\<lambda>r. if reg_id r = rid then r\<lparr>status := new_status ns\<rparr> else r)
                   (registrations w)"
      by auto
    have n: "registrations w' ! j
               = (if reg_id (registrations w ! j) = rid
                  then (registrations w ! j)\<lparr>status := new_status ns\<rparr>
                  else registrations w ! j)"
      unfolding m using j by simp
    have id: "reg_id (registrations w ! j) = rid"
      using n d by (cases "reg_id (registrations w ! j) = rid") simp_all
    have s: "status (registrations w' ! j) = new_status ns" using n id by simp
    have "list_in_sync page w \<longrightarrow> status (registrations w ! j) = Pending"
      using shown_in_sync_pending [OF shown _ nth_mem [OF j] id] by blast
    then show "role p = Admin \<and> reg_id (registrations w ! j) = rid
              \<and> status (registrations w' ! j) = new_status ns
              \<and> (list_in_sync page w \<longrightarrow> status (registrations w ! j) = Pending)"
      using adm id s by blast
  qed
next
  assume "deleteRegistration p c rid page w = (page', w')"
  from deleteRegistration_ledger [OF this]
  show "set (registrations w') \<subseteq> set (registrations w)" by auto
next
  assume "handleSubmit pf sp fs w = (fs', w')"
  from handleSubmit_ledger [OF this]
  show "\<exists>new. registrations w' = registrations w @ new" by auto
next
  assume "handleWarningConfirm pf sp fs w = (fs', w')"
  from performRegistration_result [OF this [unfolded handleWarningConfirm_def]]
  show "\<exists>new. registrations w' = registrations w @ new" by auto
qed

text \<open>
  C8, witness: on a freshly loaded page the admin approves Alice's pending registration.
\<close>

theorem status_updates_witness:
  "list_in_sync (fst first_admin_loaded) (snd first_admin_loaded)
   \<and> role admin0 = Admin
   \<and> map status (registrations (snd first_admin_loaded)) = [Pending]
   \<and> map status
        (registrations
           (snd (clickStatusButton admin0 50 SetApproved (fst first_admin_loaded)
                   (snd first_admin_loaded)))) = [Approved]
   \<and> reg_id (registrations (snd first_admin_loaded) ! 0) = 50"
proof -
  let ?r = "clickStatusButton admin0 50 SetApproved (fst first_admin_loaded)
              (snd first_admin_loaded)"
  have s: "list_in_sync (fst first_admin_loaded) (snd first_admin_loaded)" by code_simp
  have b: "map status (registrations (snd first_admin_loaded)) = [Pending]" by code_simp
  have a: "map status (registrations (snd ?r)) = [Approved]" by code_simp
  have l: "(0::nat) < length (registrations (snd first_admin_loaded))" by code_simp
  have d: "status (registrations (snd ?r) ! 0) \<noteq> status (registrations (snd first_admin_loaded) ! 0)"
    by code_simp
  have i: "reg_id (registrations (snd first_admin_loaded) ! 0) = 50" by code_simp
  have e: "?r = (fst ?r, snd ?r)" by simp
  from status_updates_gated_by_listed_status
         [where p = admin0 and rid = 50 and ns = SetApproved and page = "fst first_admin_loaded"
            and w = "snd first_admin_loaded" and page' = "fst ?r" and w' = "snd ?r",
          THEN conjunct1, rule_format, OF e]
  have "\<forall>j < length (registrations (snd first_admin_loaded)).
            status (registrations (snd ?r) ! j) \<noteq> status (registrations (snd first_admin_loaded) ! j) \<longrightarrow>
              role admin0 = Admin \<and> reg_id (registrations (snd first_admin_loaded) ! j) = 50
              \<and> status (registrations (snd ?r) ! j) = new_status SetApproved
              \<and> (list_in_sync (fst first_admin_loaded) (snd first_admin_loaded)
                   \<longrightarrow> status (registrations (snd first_admin_loaded) ! j) = Pending)"
    by blast
  from this [rule_format, OF l d] s a b i show ?thesis by simp
qed

text \<open>
  C8, counterexample to the claim as stated (approved and rejected are terminal): the
  second admin approves the registration while the first admin's page still lists it as
  pending; the first admin's click on Reject then turns the approved registration into a
  rejected one. The same happens to one admin alone when the read that refreshes the
  list after the approval fails.
\<close>

theorem status_updates_counterexample:
  "map status (registrations pending_world) = [Pending]
   \<and> map status (registrations (snd second_admin_approved)) = [Approved]
   \<and> role admin0 = Admin
   \<and> statusButtonsShown admin0 (fst first_admin_loaded) 50
   \<and> map reg_id (registrations (snd first_admin_rejected)) = [50]
   \<and> map status (registrations (snd first_admin_rejected)) = [Rejected]
   \<and> map status (registrations (snd lone_admin_approved)) = [Approved]
   \<and> statusButtonsShown admin0 (fst lone_admin_approved) 50
   \<and> map status (registrations (snd lone_admin_rejected)) = [Rejected]"
  by code_simp

end
